theory Spec2Isabelle
  imports Main "HOL-Library.Word" "HOL-Library.Signed_Division"
begin

unbundle bit_operations_syntax

section \<open>Basic types\<close>

type_synonym byte = "8 word"

text \<open>A coin type is the single byte \<^verbatim>\<open>cointype.CoinType\<close> (a \<^verbatim>\<open>uint8\<close>).\<close>

type_synonym CoinType = "8 word"

definition CoinTypeVAR :: CoinType where
  "CoinTypeVAR = 0"

text \<open>
  Modelled from the spec: the methods \<^verbatim>\<open>CoinType.IsVAR\<close> and \<^verbatim>\<open>CoinType.IsSKA\<close> of the
  \<^verbatim>\<open>cointype\<close> package. The data model reads: a coin type is a single byte, 0 is VAR and
  1..255 are the SKA coins; both predicates are pure.
\<close>

definition IsVAR :: "CoinType \<Rightarrow> bool" where
  "IsVAR c = (c = 0)"

definition IsSKA :: "CoinType \<Rightarrow> bool" where
  "IsSKA c = (1 \<le> c \<and> c \<le> 255)"

section \<open>Arbitrary-precision integers: \<^verbatim>\<open>math/big\<close>\<close>

text \<open>
  A \<^verbatim>\<open>*big.Int\<close> is an \<^typ>\<open>int option\<close>: \<open>None\<close> is the nil pointer. \<^verbatim>\<open>SetBytes\<close> reads
  a big-endian unsigned magnitude; \<^verbatim>\<open>Bytes\<close> writes the magnitude of the absolute value,
  most significant byte first, with no leading zero byte (the empty slice for zero).
\<close>

definition SetBytes :: "byte list \<Rightarrow> int" where
  "SetBytes bs = int (foldl (\<lambda>acc b. acc * 256 + unat b) 0 bs)"

fun magnitude_bytes :: "nat \<Rightarrow> byte list" where
  "magnitude_bytes n =
     (if n = 0 then [] else magnitude_bytes (n div 256) @ [of_nat (n mod 256)])"

declare magnitude_bytes.simps [simp del]

definition big_Bytes :: "int \<Rightarrow> byte list" where
  "big_Bytes x = magnitude_bytes (nat \<bar>x\<bar>)"

section \<open>\<^verbatim>\<open>cointype.SKAAmount\<close>\<close>

record SKAAmount =
  amount_value :: "int option"

definition Zero :: SKAAmount where
  "Zero = \<lparr>amount_value = Some 0\<rparr>"

text \<open>The operand a method computes with: a nil \<^verbatim>\<open>value\<close> stands for \<^verbatim>\<open>zeroInt\<close>.\<close>

definition operand :: "SKAAmount \<Rightarrow> int" where
  "operand a = (case amount_value a of None \<Rightarrow> 0 | Some v \<Rightarrow> v)"

definition SKAAmountFromBytes :: "byte list \<Rightarrow> SKAAmount" where
  "SKAAmountFromBytes b =
     (if length b = 0 then Zero else \<lparr>amount_value = Some (SetBytes b)\<rparr>)"

definition SKAAmountFromSignedBytes :: "byte list \<Rightarrow> SKAAmount" where
  "SKAAmountFromSignedBytes b =
     (if length b = 0 then Zero
      else if length b = 1 then Zero
      else
        (let sign = hd b;
             magnitude = SetBytes (tl b)
         in if sign = 1 then \<lparr>amount_value = Some (- magnitude)\<rparr>
            else \<lparr>amount_value = Some magnitude\<rparr>))"

definition Cmp :: "SKAAmount \<Rightarrow> SKAAmount \<Rightarrow> int" where
  "Cmp a b =
     (let aVal = operand a; bVal = operand b
      in if aVal < bVal then - 1 else if aVal = bVal then 0 else 1)"

definition IsNegative :: "SKAAmount \<Rightarrow> bool" where
  "IsNegative a = (case amount_value a of None \<Rightarrow> False | Some v \<Rightarrow> v < 0)"

definition Bytes :: "SKAAmount \<Rightarrow> byte list" where
  "Bytes a =
     (case amount_value a of
        None \<Rightarrow> []
      | Some v \<Rightarrow> if v = 0 then [] else big_Bytes \<bar>v\<bar>)"

definition SignedBytes :: "SKAAmount \<Rightarrow> byte list" where
  "SignedBytes a =
     (case amount_value a of
        None \<Rightarrow> [0]
      | Some v \<Rightarrow>
          if v = 0 then [0]
          else
            (let magnitude = big_Bytes \<bar>v\<bar>
             in (if v < 0 then 1 else 0) # magnitude))"

definition Abs :: "SKAAmount \<Rightarrow> SKAAmount" where
  "Abs a =
     (case amount_value a of
        None \<Rightarrow> Zero
      | Some v \<Rightarrow> \<lparr>amount_value = Some \<bar>v\<bar>\<rparr>)"

section \<open>The transaction model of package \<^verbatim>\<open>wire\<close>\<close>

record OutPoint =
  Hash :: "256 word"
  Index :: "32 word"
  Tree :: "8 word"

record TxIn =
  PreviousOutPoint :: OutPoint
  Sequence :: "32 word"
  ValueIn :: "64 word"
  SKAValueIn :: "int option"
  BlockHeight :: "32 word"
  BlockIndex :: "32 word"
  SignatureScript :: "byte list"

record TxOut =
  Value :: "64 word"
  SKAValue :: "int option"
  CoinType :: CoinType
  Version :: "16 word"
  PkScript :: "byte list"

type_synonym TxSerializeType = "16 word"

definition TxSerializeFull :: TxSerializeType where
  "TxSerializeFull = 0"

definition TxSerializeNoWitness :: TxSerializeType where
  "TxSerializeNoWitness = 1"

definition TxSerializeOnlyWitness :: TxSerializeType where
  "TxSerializeOnlyWitness = 2"

record MsgTx =
  SerType :: TxSerializeType
  TxVersion :: "16 word"
  TxIn :: "TxIn list"
  TxOut :: "TxOut list"
  LockTime :: "32 word"
  Expiry :: "32 word"

section \<open>\<^verbatim>\<open>blockalloc.GetTransactionCoinType\<close>\<close>

text \<open>
  The \<^verbatim>\<open>for\<close> loop over the outputs: the coin type of the first output that carries a
  value, \<open>None\<close> when the loop falls through.
\<close>

fun first_output_with_value :: "TxOut list \<Rightarrow> CoinType option" where
  "first_output_with_value [] = None"
| "first_output_with_value (txOut # rest) =
     (if IsSKA (CoinType txOut) then
        (if (case SKAValue txOut of None \<Rightarrow> False | Some v \<Rightarrow> 0 < v)
         then Some (CoinType txOut)
         else first_output_with_value rest)
      else
        (if 0 <s Value txOut then Some (CoinType txOut)
         else first_output_with_value rest))"

definition GetTransactionCoinType :: "MsgTx \<Rightarrow> CoinType" where
  "GetTransactionCoinType msgTx =
     (if length (TxOut msgTx) = 0 then CoinTypeVAR
      else
        (case first_output_with_value (TxOut msgTx) of
           Some c \<Rightarrow> c
         | None \<Rightarrow> CoinType (TxOut msgTx ! 0)))"

text \<open>
  The claim's words: an output has a positive amount when its \<^verbatim>\<open>Value\<close> is positive
  (a VAR output) or its \<^verbatim>\<open>SKAValue\<close> is present and positive (an SKA output).
\<close>

definition has_positive_amount :: "TxOut \<Rightarrow> bool" where
  "has_positive_amount out =
     (if CoinType out = CoinTypeVAR then 0 < sint (Value out)
      else (case SKAValue out of None \<Rightarrow> False | Some v \<Rightarrow> 0 < v))"

definition primary_coin_type_spec :: "MsgTx \<Rightarrow> CoinType" where
  "primary_coin_type_spec tx =
     (case find has_positive_amount (TxOut tx) of
        Some out \<Rightarrow> CoinType out
      | None \<Rightarrow> (case TxOut tx of [] \<Rightarrow> CoinTypeVAR | out # _ \<Rightarrow> CoinType out))"

section \<open>Detection of SKA emission transactions\<close>

text \<open>
  \<^verbatim>\<open>IsSKAEmissionTransaction\<close> of \<^verbatim>\<open>internal/blockchain/skaemission.go\<close>. The constant
  \<^verbatim>\<open>wire.CoinTypeSKA\<close> it compares the outputs with is not part of the sources at hand
  and is the parameter \<open>CoinTypeSKA\<close>. The marker test reads the last three bytes of
  the signature script.
\<close>

fun outputs_all_of :: "CoinType \<Rightarrow> TxOut list \<Rightarrow> bool" where
  "outputs_all_of CoinTypeSKA [] = True"
| "outputs_all_of CoinTypeSKA (txOut # rest) =
     (if CoinType txOut \<noteq> CoinTypeSKA then False else outputs_all_of CoinTypeSKA rest)"

definition IsSKAEmissionTransaction :: "CoinType \<Rightarrow> MsgTx \<Rightarrow> bool" where
  "IsSKAEmissionTransaction CoinTypeSKA tx =
     (if length (TxIn tx) \<noteq> 1 then False
      else if length (TxOut tx) = 0 then False
      else
        (let prevOut = PreviousOutPoint (TxIn tx ! 0)
         in if Hash prevOut \<noteq> 0 \<or> Index prevOut \<noteq> 0xffffffff then False
            else
              (let sigScript = SignatureScript (TxIn tx ! 0)
               in if length sigScript < 4 \<or>
                     drop (length sigScript - 3) sigScript \<noteq> [0x53, 0x4B, 0x41]
                  then False
                  else outputs_all_of CoinTypeSKA (TxOut tx))))"

text \<open>The sibling \<^verbatim>\<open>wire.IsSKAEmissionTransaction\<close>, which tests the four leading bytes.\<close>

fun outputs_all_SKA :: "TxOut list \<Rightarrow> bool" where
  "outputs_all_SKA [] = True"
| "outputs_all_SKA (txOut # rest) =
     (if \<not> IsSKA (CoinType txOut) then False else outputs_all_SKA rest)"

definition wire_IsSKAEmissionTransaction :: "MsgTx \<Rightarrow> bool" where
  "wire_IsSKAEmissionTransaction tx =
     (if length (TxIn tx) \<noteq> 1 \<or> length (TxOut tx) = 0 then False
      else
        (let prevOut = PreviousOutPoint (TxIn tx ! 0)
         in if Hash prevOut \<noteq> 0 \<or> Index prevOut \<noteq> 0xffffffff then False
            else
              (let sigScript = SignatureScript (TxIn tx ! 0)
               in if length sigScript < 4 then False
                  else if \<not> (sigScript ! 0 = 0x01 \<and> sigScript ! 1 = 0x53 \<and>
                              sigScript ! 2 = 0x4b \<and> sigScript ! 3 = 0x41)
                  then False
                  else outputs_all_SKA (TxOut tx))))"

text \<open>
  The shape the tests build: one input spending the null outpoint with the given
  signature script, and one output per given coin type.
\<close>

definition null_input :: "byte list \<Rightarrow> TxIn" where
  "null_input script =
     \<lparr>PreviousOutPoint = \<lparr>Hash = 0, Index = 0xffffffff, Tree = 0\<rparr>,
      Sequence = 0xffffffff, ValueIn = 0, SKAValueIn = None,
      BlockHeight = 0, BlockIndex = 0xffffffff, SignatureScript = script\<rparr>"

definition ska_output :: "CoinType \<Rightarrow> int \<Rightarrow> TxOut" where
  "ska_output c v =
     \<lparr>Value = 0, SKAValue = Some v, CoinType = c, Version = 0,
      PkScript = [0x76, 0xa9, 0x14, 0x01, 0x02, 0x03]\<rparr>"

definition emission_shaped_tx :: "byte list \<Rightarrow> TxOut list \<Rightarrow> MsgTx" where
  "emission_shaped_tx script outs =
     \<lparr>SerType = TxSerializeFull, TxVersion = 1, TxIn = [null_input script],
      TxOut = outs, LockTime = 0, Expiry = 0\<rparr>"

text \<open>The claim's words for an emission transaction.\<close>

definition emission_spec :: "MsgTx \<Rightarrow> bool" where
  "emission_spec tx =
     (length (TxIn tx) = 1 \<and>
      Hash (PreviousOutPoint (hd (TxIn tx))) = 0 \<and>
      Index (PreviousOutPoint (hd (TxIn tx))) = 0xffffffff \<and>
      take 4 (SignatureScript (hd (TxIn tx))) = [0x01, 0x53, 0x4B, 0x41] \<and>
      TxOut tx \<noteq> [] \<and>
      list_all (\<lambda>out. IsSKA (CoinType out)) (TxOut tx))"

section \<open>Context-free transaction sanity: \<^verbatim>\<open>standalone.CheckTransactionSanity\<close>\<close>

text \<open>
  Modelled from the spec: the constant \<^verbatim>\<open>cointype.MaxVARAtoms\<close>, which the data model
  gives as 21 million coins of \<open>10\<^sup>8\<close> atoms each.
\<close>

definition maxAtoms :: "64 word" where
  "maxAtoms = 2100000000000000"

definition isValidCoinType :: "CoinType \<Rightarrow> bool" where
  "isValidCoinType c = True"

datatype FieldError = VARHasSKAValue | SKAHasValue | SKANilValue | SKANegativeValue

definition ValidateCoinTypeFields :: "TxOut \<Rightarrow> FieldError option" where
  "ValidateCoinTypeFields t =
     (if IsVAR (CoinType t) then
        (if SKAValue t \<noteq> None then Some VARHasSKAValue else None)
      else if Value t \<noteq> 0 then Some SKAHasValue
      else
        (case SKAValue t of
           None \<Rightarrow> Some SKANilValue
         | Some v \<Rightarrow> if v < 0 then Some SKANegativeValue else None))"

text \<open>
  Serialized sizes. \<^verbatim>\<open>VarIntSerializeSize\<close> is not part of the sources at hand and is
  the parameter \<open>V\<close>. Go's \<^verbatim>\<open>int\<close> sizes are natural numbers here.
\<close>

definition TxIn_SerializeSizePrefix :: "TxIn \<Rightarrow> nat" where
  "TxIn_SerializeSizePrefix t = 41"

definition TxIn_SerializeSizeWitness :: "(nat \<Rightarrow> nat) \<Rightarrow> TxIn \<Rightarrow> nat" where
  "TxIn_SerializeSizeWitness V t =
     (let base = 8 + 1 + 4 + 4 + V (length (SignatureScript t)) + length (SignatureScript t)
      in case SKAValueIn t of
           None \<Rightarrow> base
         | Some v \<Rightarrow> if 0 < v then base + length (big_Bytes v) else base)"

definition TxOut_SerializeSize :: "(nat \<Rightarrow> nat) \<Rightarrow> TxOut \<Rightarrow> nat" where
  "TxOut_SerializeSize V t =
     (let base = 1 + 2 + V (length (PkScript t)) + length (PkScript t)
      in case SKAValue t of
           None \<Rightarrow> base + 8
         | Some v \<Rightarrow> if IsSKA (CoinType t) then base + 1 + length (big_Bytes v) else base + 8)"

definition MsgTx_SerializeSize :: "(nat \<Rightarrow> nat) \<Rightarrow> MsgTx \<Rightarrow> nat" where
  "MsgTx_SerializeSize V msg =
     (if SerType msg = TxSerializeNoWitness then
        12 + V (length (TxIn msg)) + V (length (TxOut msg)) +
        sum_list (map TxIn_SerializeSizePrefix (TxIn msg)) +
        sum_list (map (TxOut_SerializeSize V) (TxOut msg))
      else if SerType msg = TxSerializeOnlyWitness then
        4 + V (length (TxIn msg)) +
        sum_list (map (TxIn_SerializeSizeWitness V) (TxIn msg))
      else if SerType msg = TxSerializeFull then
        12 + V (length (TxIn msg)) + V (length (TxIn msg)) + V (length (TxOut msg)) +
        sum_list (map TxIn_SerializeSizePrefix (TxIn msg)) +
        sum_list (map (TxIn_SerializeSizeWitness V) (TxIn msg)) +
        sum_list (map (TxOut_SerializeSize V) (TxOut msg))
      else 0)"

datatype ErrorKind =
  ErrNoTxInputs | ErrNoTxOutputs | ErrTxTooBig | ErrBadTxOutValue | ErrDuplicateTxInputs

text \<open>
  What a call does: it returns nil, returns a rule error, or dereferences a nil
  \<^verbatim>\<open>SKAValue\<close> and panics.
\<close>

datatype SanityResult = Sane | RuleError ErrorKind | NilPointerPanic

text \<open>The loop over the outputs, with its two running totals.\<close>

fun check_outputs :: "64 word \<Rightarrow> int \<Rightarrow> TxOut list \<Rightarrow> SanityResult" where
  "check_outputs totalVARAtoms totalSKAAtoms [] = Sane"
| "check_outputs totalVARAtoms totalSKAAtoms (txOut # rest) =
     (let coinType = CoinType txOut
      in if \<not> isValidCoinType coinType then RuleError ErrBadTxOutValue
         else if ValidateCoinTypeFields txOut \<noteq> None then RuleError ErrBadTxOutValue
         else if coinType = CoinTypeVAR then
           (let atoms = Value txOut
            in if atoms <s 0 then RuleError ErrBadTxOutValue
               else if maxAtoms <s atoms then RuleError ErrBadTxOutValue
               else
                 (let total = totalVARAtoms + atoms
                  in if total <s 0 then RuleError ErrBadTxOutValue
                     else if maxAtoms <s total then RuleError ErrBadTxOutValue
                     else check_outputs total totalSKAAtoms rest))
         else
           (case SKAValue txOut of
              None \<Rightarrow> NilPointerPanic
            | Some skaAmount \<Rightarrow>
                if skaAmount < 0 then RuleError ErrBadTxOutValue
                else
                  (let total = totalSKAAtoms + skaAmount
                   in if total < 0 then RuleError ErrBadTxOutValue
                      else check_outputs totalVARAtoms total rest)))"

text \<open>The loop over the inputs, with the set of outpoints seen so far.\<close>

fun check_duplicate_inputs :: "OutPoint set \<Rightarrow> TxIn list \<Rightarrow> SanityResult" where
  "check_duplicate_inputs existingTxOut [] = Sane"
| "check_duplicate_inputs existingTxOut (txIn # rest) =
     (if PreviousOutPoint txIn \<in> existingTxOut then RuleError ErrDuplicateTxInputs
      else check_duplicate_inputs (insert (PreviousOutPoint txIn) existingTxOut) rest)"

definition CheckTransactionSanity :: "(nat \<Rightarrow> nat) \<Rightarrow> MsgTx \<Rightarrow> 64 word \<Rightarrow> SanityResult" where
  "CheckTransactionSanity V tx maxTxSize =
     (if length (TxIn tx) = 0 then RuleError ErrNoTxInputs
      else if length (TxOut tx) = 0 then RuleError ErrNoTxOutputs
      else if unat maxTxSize < MsgTx_SerializeSize V tx then RuleError ErrTxTooBig
      else
        (case check_outputs 0 0 (TxOut tx) of
           Sane \<Rightarrow> check_duplicate_inputs {} (TxIn tx)
         | failure \<Rightarrow> failure))"

text \<open>The claim's conditions on the outputs.\<close>

definition var_outputs :: "MsgTx \<Rightarrow> TxOut list" where
  "var_outputs tx = filter (\<lambda>out. CoinType out = CoinTypeVAR) (TxOut tx)"

definition var_value_out_of_range :: "TxOut \<Rightarrow> bool" where
  "var_value_out_of_range out =
     (CoinType out = CoinTypeVAR \<and>
      (sint (Value out) < 0 \<or> sint maxAtoms < sint (Value out)))"

definition ska_value_negative :: "TxOut \<Rightarrow> bool" where
  "ska_value_negative out =
     (CoinType out \<noteq> CoinTypeVAR \<and>
      (case SKAValue out of None \<Rightarrow> False | Some v \<Rightarrow> v < 0))"

definition var_total :: "MsgTx \<Rightarrow> int" where
  "var_total tx = sum_list (map (\<lambda>out. sint (Value out)) (var_outputs tx))"

text \<open>Auxiliary notions for the proof: an output the loop accepts, and the VAR total.\<close>

definition output_ok :: "TxOut \<Rightarrow> bool" where
  "output_ok out = (ValidateCoinTypeFields out = None \<and> \<not> var_value_out_of_range out)"

definition var_sum :: "TxOut list \<Rightarrow> int" where
  "var_sum outs =
     sum_list (map (\<lambda>out. sint (Value out)) (filter (\<lambda>out. CoinType out = CoinTypeVAR) outs))"

section \<open>The fee splitter: \<^verbatim>\<open>wire.CalcFeeSplitByCoinType\<close>\<close>

text \<open>
  \<^verbatim>\<open>FeesByType\<close> is a Go map from coin type to \<^verbatim>\<open>*big.Int\<close>. A key that is absent and a
  key that holds nil are both \<open>None\<close> here (the splitter skips both alike), and the nil
  map is the empty map.
\<close>

type_synonym FeesByType = "CoinType \<rightharpoonup> int"

text \<open>
  \<^verbatim>\<open>adjustedTotal := int64(workProportion + stakeProportion)\<close>: the sum is formed in
  \<^verbatim>\<open>uint16\<close>, where it wraps, and widened afterwards.
\<close>

definition adjustedTotal :: "16 word \<Rightarrow> 16 word \<Rightarrow> int" where
  "adjustedTotal workProportion stakeProportion = uint (workProportion + stakeProportion)"

text \<open>
  The body of the loop for one coin type with a positive total. \<^verbatim>\<open>big.Int.Div\<close> is
  Euclidean division, which is \<open>div\<close> for the positive divisor at hand.
\<close>

definition split_fee :: "int \<Rightarrow> int \<Rightarrow> int \<Rightarrow> int \<Rightarrow> int \<times> int" where
  "split_fee totalFee workProportionBig stakeProportionBig adjustedTotalBig =
     (let minerFee = (totalFee * workProportionBig) div adjustedTotalBig;
          stakerFee = (totalFee * stakeProportionBig) div adjustedTotalBig;
          distributed = minerFee + stakerFee;
          remainder = totalFee - distributed
      in (minerFee + remainder, stakerFee))"

text \<open>
  The loop visits every key once and writes only that key of the two results, so the
  results are given key by key.
\<close>

definition CalcFeeSplitByCoinType ::
    "FeesByType \<Rightarrow> 16 word \<Rightarrow> 16 word \<Rightarrow> FeesByType \<times> FeesByType" where
  "CalcFeeSplitByCoinType feesByType workProportion stakeProportion =
     (if adjustedTotal workProportion stakeProportion = 0 then (Map.empty, Map.empty)
      else
        ((\<lambda>coinType.
            case feesByType coinType of
              None \<Rightarrow> None
            | Some totalFee \<Rightarrow>
                if totalFee \<le> 0 then None
                else
                  (let minerFee = fst (split_fee totalFee (uint workProportion)
                         (uint stakeProportion) (adjustedTotal workProportion stakeProportion))
                   in if 0 < minerFee then Some minerFee else None)),
         (\<lambda>coinType.
            case feesByType coinType of
              None \<Rightarrow> None
            | Some totalFee \<Rightarrow>
                if totalFee \<le> 0 then None
                else
                  (let stakerFee = snd (split_fee totalFee (uint workProportion)
                         (uint stakeProportion) (adjustedTotal workProportion stakeProportion))
                   in if 0 < stakerFee then Some stakerFee else None))))"

text \<open>The amount a result holds for a coin type: nothing stored reads as zero.\<close>

definition fee_of :: "FeesByType \<Rightarrow> CoinType \<Rightarrow> int" where
  "fee_of fees c = (case fees c of None \<Rightarrow> 0 | Some v \<Rightarrow> v)"

section \<open>The burn ledger: \<^verbatim>\<open>SKABurnState\<close>\<close>

record SKABurnRecord =
  BurnCoinType :: CoinType
  Amount :: int
  Height :: "64 word"
  TxHash :: "256 word"
  OutIndex :: "32 word"

text \<open>
  The in-memory totals are a Go map from coin type to \<^verbatim>\<open>*big.Int\<close>; the code never stores
  nil in it. The persisted side is the bucket \<^verbatim>\<open>skaburnstate\<close> of the database metadata: a
  map from keys to values, or no bucket at all. The database is taken to succeed at
  every operation.
\<close>

type_synonym burned_map = "CoinType \<rightharpoonup> int"

type_synonym bucket = "byte list \<rightharpoonup> byte list"

record SKABurnState =
  burned :: burned_map
  stored :: "bucket option"

definition skaBurnStateFormatVersion :: "32 word" where
  "skaBurnStateFormatVersion = 2"

text \<open>The bytes of the key \<^verbatim>\<open>"__meta_version__"\<close>.\<close>

definition skaBurnStateVersionKey :: "byte list" where
  "skaBurnStateVersionKey =
     [0x5f, 0x5f, 0x6d, 0x65, 0x74, 0x61, 0x5f, 0x76, 0x65, 0x72, 0x73, 0x69, 0x6f, 0x6e,
      0x5f, 0x5f]"

text \<open>\<^verbatim>\<open>binary.LittleEndian\<close>: reading an unsigned number, and writing a \<^verbatim>\<open>uint32\<close>.\<close>

definition LittleEndian_Uint :: "byte list \<Rightarrow> nat" where
  "LittleEndian_Uint bs = foldr (\<lambda>b acc. unat b + 256 * acc) bs 0"

definition LittleEndian_PutUint32 :: "32 word \<Rightarrow> byte list" where
  "LittleEndian_PutUint32 w =
     [ucast w, ucast (drop_bit 8 w), ucast (drop_bit 16 w), ucast (drop_bit 24 w)]"

text \<open>
  \<^verbatim>\<open>saveWithTx\<close> deletes the bucket, creates it again, writes the version and then one
  entry for every coin type whose total is not zero. The writes go to distinct keys, so
  the new bucket is given key by key.
\<close>

definition saveWithTx :: "burned_map \<Rightarrow> bucket option \<Rightarrow> bucket option" where
  "saveWithTx s meta =
     Some (\<lambda>key.
       if key = skaBurnStateVersionKey
       then Some (LittleEndian_PutUint32 skaBurnStateFormatVersion)
       else
         (case key of
            [coinType] \<Rightarrow>
              (case s coinType of
                 None \<Rightarrow> None
               | Some amount \<Rightarrow> if amount = 0 then None else Some (big_Bytes amount))
          | _ \<Rightarrow> None))"

fun connect_burns :: "burned_map \<Rightarrow> SKABurnRecord list \<Rightarrow> burned_map" where
  "connect_burns s [] = s"
| "connect_burns s (burn # rest) =
     connect_burns
       (case s (BurnCoinType burn) of
          Some existing \<Rightarrow> s(BurnCoinType burn \<mapsto> existing + Amount burn)
        | None \<Rightarrow> s(BurnCoinType burn \<mapsto> Amount burn))
       rest"

fun disconnect_burns :: "burned_map \<Rightarrow> SKABurnRecord list \<Rightarrow> burned_map" where
  "disconnect_burns s [] = s"
| "disconnect_burns s (burn # rest) =
     disconnect_burns
       (case s (BurnCoinType burn) of
          Some existing \<Rightarrow>
            (let result = existing - Amount burn
             in if result \<le> 0 then s(BurnCoinType burn := None)
                else s(BurnCoinType burn \<mapsto> result))
        | None \<Rightarrow> s)
       rest"

definition ConnectSKABurnsTx :: "SKABurnState \<Rightarrow> SKABurnRecord list \<Rightarrow> SKABurnState" where
  "ConnectSKABurnsTx st burns =
     (if length burns = 0 then st
      else
        (let s = connect_burns (burned st) burns
         in \<lparr>burned = s, stored = saveWithTx s (stored st)\<rparr>))"

definition DisconnectSKABurnsTx :: "SKABurnState \<Rightarrow> SKABurnRecord list \<Rightarrow> SKABurnState" where
  "DisconnectSKABurnsTx st burns =
     (if length burns = 0 then st
      else
        (let s = disconnect_burns (burned st) burns
         in \<lparr>burned = s, stored = saveWithTx s (stored st)\<rparr>))"

text \<open>A chain of blocks, each with its burn records, connected in order and disconnected.\<close>

definition connect_blocks :: "SKABurnState \<Rightarrow> SKABurnRecord list list \<Rightarrow> SKABurnState" where
  "connect_blocks st blocks = fold (\<lambda>burns st'. ConnectSKABurnsTx st' burns) blocks st"

definition disconnect_blocks :: "SKABurnState \<Rightarrow> SKABurnRecord list list \<Rightarrow> SKABurnState" where
  "disconnect_blocks st blocks = fold (\<lambda>burns st'. DisconnectSKABurnsTx st' burns) blocks st"

text \<open>The total of a coin type (nothing stored reads as zero) and what a list burns of it.\<close>

definition total_burned :: "burned_map \<Rightarrow> CoinType \<Rightarrow> int" where
  "total_burned s c = (case s c of None \<Rightarrow> 0 | Some a \<Rightarrow> a)"

definition burned_in :: "CoinType \<Rightarrow> SKABurnRecord list \<Rightarrow> int" where
  "burned_in c burns = sum_list (map Amount (filter (\<lambda>r. BurnCoinType r = c) burns))"

definition positive_at :: "burned_map \<Rightarrow> CoinType \<Rightarrow> bool" where
  "positive_at s c = (case s c of None \<Rightarrow> True | Some a \<Rightarrow> 0 < a)"

definition nonneg_at :: "burned_map \<Rightarrow> CoinType \<Rightarrow> bool" where
  "nonneg_at s c = (case s c of None \<Rightarrow> True | Some a \<Rightarrow> 0 \<le> a)"

text \<open>One step of the disconnect loop, seen at one coin type.\<close>

definition disconnect_step :: "burned_map \<Rightarrow> SKABurnRecord \<Rightarrow> burned_map" where
  "disconnect_step s burn =
     (case s (BurnCoinType burn) of
        Some existing \<Rightarrow>
          (let result = existing - Amount burn
           in if result \<le> 0 then s(BurnCoinType burn := None)
              else s(BurnCoinType burn \<mapsto> result))
      | None \<Rightarrow> s)"

text \<open>A burn record; only its coin type and amount matter to the ledger.\<close>

definition burn_record :: "CoinType \<Rightarrow> int \<Rightarrow> SKABurnRecord" where
  "burn_record c a = \<lparr>BurnCoinType = c, Amount = a, Height = 0, TxHash = 0, OutIndex = 0\<rparr>"

subsection \<open>\<^verbatim>\<open>SKABurnState.load\<close>\<close>

text \<open>
  \<^verbatim>\<open>load\<close> reads the bucket through \<^verbatim>\<open>Get\<close> and \<^verbatim>\<open>ForEach\<close>: here the bucket is the list
  of its entries in the order \<^verbatim>\<open>ForEach\<close> visits them, and \<^verbatim>\<open>Get\<close> is \<^const>\<open>map_of\<close>.
\<close>

datatype LoadError =
  InvalidVersionEncoding | UnsupportedVersion | InvalidKeyLength | InvalidCoinTypeZero
  | InvalidValueLengthV1 | InvalidValueLengthV2

fun load_entries ::
    "32 word \<Rightarrow> burned_map \<Rightarrow> (byte list \<times> byte list) list \<Rightarrow> LoadError + burned_map" where
  "load_entries version s [] = Inr s"
| "load_entries version s ((k, v) # rest) =
     (if k = skaBurnStateVersionKey then load_entries version s rest
      else if length k \<noteq> 1 then Inl InvalidKeyLength
      else if k ! 0 = 0 then Inl InvalidCoinTypeZero
      else
        (let coinType = k ! 0
         in if version = 1 then
              (if length v \<noteq> 8 then Inl InvalidValueLengthV1
               else load_entries version
                      (s(coinType \<mapsto> sint (word_of_nat (LittleEndian_Uint v) :: 64 word))) rest)
            else
              (if length v < 1 then Inl InvalidValueLengthV2
               else load_entries version (s(coinType \<mapsto> SetBytes v)) rest)))"

definition load ::
    "(byte list \<times> byte list) list option \<Rightarrow> burned_map \<Rightarrow> LoadError + burned_map" where
  "load meta s =
     (case meta of
        None \<Rightarrow> Inr s
      | Some entries \<Rightarrow>
          (case map_of entries skaBurnStateVersionKey of
             Some versionBytes \<Rightarrow>
               if length versionBytes \<noteq> 4 then Inl InvalidVersionEncoding
               else
                 (let version = word_of_nat (LittleEndian_Uint versionBytes) :: 32 word
                  in if skaBurnStateFormatVersion < version then Inl UnsupportedVersion
                     else load_entries version s entries)
           | None \<Rightarrow>
               (let version = 1 :: 32 word
                in if skaBurnStateFormatVersion < version then Inl UnsupportedVersion
                   else load_entries version s entries)))"

text \<open>
  The claim's words for version 2: a value is one length byte followed by that many
  bytes of big-endian magnitude.
\<close>

definition decode_length_prefixed :: "byte list \<Rightarrow> int option" where
  "decode_length_prefixed v =
     (case v of
        [] \<Rightarrow> None
      | n # bs \<Rightarrow> if length bs = unat n then Some (SetBytes bs) else None)"

section \<open>The fee calculator: \<^verbatim>\<open>fees.CoinTypeFeeCalculator\<close>\<close>

text \<open>
  The multipliers are \<^verbatim>\<open>float64\<close>. The type of floating-point numbers is the type
  parameter \<open>'f\<close> and the operations the calculator uses on them are the fields of a
  record passed to every function, so nothing below depends on how they round:
  \<open>lit m e\<close> is the literal \<open>m \<sqdot> 10\<^sup>-\<^sup>e\<close>, \<open>of_int64\<close> and \<open>to_int64\<close> are the conversions
  \<^verbatim>\<open>float64(x)\<close> and \<^verbatim>\<open>int64(x)\<close>, \<open>fmul\<close> is the product, \<open>fless\<close> and \<open>feq\<close> are \<^verbatim>\<open><\<close> and
  \<^verbatim>\<open>==\<close>.
\<close>

record 'f float64_ops =
  lit :: "int \<Rightarrow> nat \<Rightarrow> 'f"
  of_int64 :: "64 word \<Rightarrow> 'f"
  to_int64 :: "'f \<Rightarrow> 64 word"
  fmul :: "'f \<Rightarrow> 'f \<Rightarrow> 'f"
  fless :: "'f \<Rightarrow> 'f \<Rightarrow> bool"
  feq :: "'f \<Rightarrow> 'f \<Rightarrow> bool"

text \<open>
  An interpretation by exact thousandths, for running the calculator on inputs where
  every product is exact: the number \<open>x\<close> is the integer \<open>1000 \<sqdot> x\<close>.
\<close>

definition thousandths :: "int float64_ops" where
  "thousandths =
     \<lparr>lit = (\<lambda>m e. (m * 1000) div 10 ^ e),
      of_int64 = (\<lambda>w. sint w * 1000),
      to_int64 = (\<lambda>x. word_of_int (x sdiv 1000)),
      fmul = (\<lambda>x y. (x * y) div 1000),
      fless = (\<lambda>x y. x < y),
      feq = (\<lambda>x y. x = y)\<rparr>"

record 'f CoinTypeFeeRate =
  MinRelayFee :: "64 word"
  DynamicFeeMultiplier :: 'f
  MaxFeeRate :: "64 word"
  SKAMinRelayFee :: "int option"
  SKAMaxFeeRate :: "int option"

record 'f UtilizationStats =
  PendingTxCount :: int
  PendingTxSize :: "64 word"
  BlockSpaceUsed :: 'f
  RecentTxFees :: "int list"

record 'f CoinTypeFeeCalculator =
  feeRates :: "CoinType \<rightharpoonup> 'f CoinTypeFeeRate"
  utilizationStats :: "CoinType \<rightharpoonup> 'f UtilizationStats"
  defaultMinRelayFee :: "64 word"

text \<open>The per-coin configuration of the chain parameters, as far as the calculator reads it.\<close>

record SKACoinConfig =
  Active :: bool
  MinRelayTxFee :: "int option"
  MaxFeeMultiplier :: "64 word"
  MaxSupply :: int

definition getDefaultSKAFeeRate :: "'f float64_ops \<Rightarrow> SKACoinConfig \<Rightarrow> 'f CoinTypeFeeRate" where
  "getDefaultSKAFeeRate F config =
     (let skaMinFeeBig =
            (case MinRelayTxFee config of
               None \<Rightarrow> 4000000000000000000
             | Some fee \<Rightarrow> if fee \<le> 0 then 4000000000000000000 else fee);
          multiplier =
            (if MaxFeeMultiplier config \<le>s 0 then 2500 else MaxFeeMultiplier config);
          skaMaxFee = skaMinFeeBig * sint multiplier;
          skaMaxFee = (if MaxSupply config < skaMaxFee then MaxSupply config else skaMaxFee)
      in \<lparr>MinRelayFee = 0, DynamicFeeMultiplier = lit F 10 1, MaxFeeRate = 0,
          SKAMinRelayFee = Some skaMinFeeBig, SKAMaxFeeRate = Some skaMaxFee\<rparr>)"

text \<open>
  \<^verbatim>\<open>NewCoinTypeFeeCalculator\<close> with \<^verbatim>\<open>initializeDefaultFeeRates\<close>: the entry for VAR is
  written first, then one entry for every active coin of the configuration.
\<close>

definition NewCoinTypeFeeCalculator ::
    "'f float64_ops \<Rightarrow> (CoinType \<rightharpoonup> SKACoinConfig) \<Rightarrow> 64 word \<Rightarrow> 'f CoinTypeFeeCalculator" where
  "NewCoinTypeFeeCalculator F SKACoins defaultFee =
     (let varRate =
            \<lparr>MinRelayFee = defaultFee, DynamicFeeMultiplier = lit F 10 1,
             MaxFeeRate = defaultFee * 100, SKAMinRelayFee = None, SKAMaxFeeRate = None\<rparr>;
          freshStats =
            \<lparr>PendingTxCount = 0, PendingTxSize = 0, BlockSpaceUsed = lit F 0 0,
             RecentTxFees = []\<rparr>
      in \<lparr>feeRates =
            (\<lambda>coinType.
               case SKACoins coinType of
                 Some config \<Rightarrow>
                   if Active config then Some (getDefaultSKAFeeRate F config)
                   else if coinType = CoinTypeVAR then Some varRate else None
               | None \<Rightarrow> if coinType = CoinTypeVAR then Some varRate else None),
          utilizationStats =
            (\<lambda>coinType.
               case SKACoins coinType of
                 Some config \<Rightarrow>
                   if Active config then Some freshStats
                   else if coinType = CoinTypeVAR then Some freshStats else None
               | None \<Rightarrow> if coinType = CoinTypeVAR then Some freshStats else None),
          defaultMinRelayFee = defaultFee\<rparr>)"

datatype FeeError = UnsupportedCoinType CoinType | NilFeeRate

definition KilobyteInt :: int where
  "KilobyteInt = 1000"

text \<open>
  Modelled from the spec: the constant \<^verbatim>\<open>cointype.MaxVARAmount\<close>, the bound at which the
  VAR fee is clamped, is \<^verbatim>\<open>MaxVARAtoms\<close>.
\<close>

definition MaxVARAmount :: "64 word" where
  "MaxVARAmount = maxAtoms"

text \<open>Go's \<^verbatim>\<open>/\<close> on \<^verbatim>\<open>int64\<close> truncates towards zero.\<close>

definition int64_div :: "64 word \<Rightarrow> 64 word \<Rightarrow> 64 word" where
  "int64_div a b = word_of_int (sint a sdiv sint b)"

text \<open>
  \<^verbatim>\<open>CalculateMinFee\<close>. An unknown coin type takes the rate of VAR; were that entry
  missing too, the nil rate would be dereferenced (\<open>Inl NilFeeRate\<close>).
\<close>

definition CalculateMinFee ::
    "'f float64_ops \<Rightarrow> 'f CoinTypeFeeCalculator \<Rightarrow> 64 word \<Rightarrow> CoinType \<Rightarrow> FeeError + int" where
  "CalculateMinFee F calc serializedSize coinType =
     (case (case feeRates calc coinType of
              Some r \<Rightarrow> Some r
            | None \<Rightarrow> feeRates calc CoinTypeVAR) of
        None \<Rightarrow> Inl NilFeeRate
      | Some feeRate \<Rightarrow>
          (let sizeBig = sint serializedSize
           in case (if IsSKA coinType then SKAMinRelayFee feeRate else None) of
                Some skaMin \<Rightarrow>
                  (let baseFee = (sizeBig * skaMin) div KilobyteInt;
                       baseFee =
                         (if \<not> feq F (DynamicFeeMultiplier feeRate) (lit F 10 1) then
                            (let multiplierFixed =
                                   to_int64 F (fmul F (DynamicFeeMultiplier feeRate) (lit F 1000 0))
                             in (baseFee * sint multiplierFixed) div KilobyteInt)
                          else baseFee);
                       baseFee = (if baseFee = 0 \<and> 0 < skaMin then skaMin else baseFee)
                   in Inr baseFee)
              | None \<Rightarrow>
                  (let baseFee = int64_div (serializedSize * MinRelayFee feeRate) 1000;
                       dynamicFee = fmul F (of_int64 F baseFee) (DynamicFeeMultiplier feeRate);
                       dynamicFee =
                         (if feq F dynamicFee (lit F 0 0) \<and> 0 <s MinRelayFee feeRate
                          then of_int64 F (MinRelayFee feeRate) else dynamicFee);
                       maxFee = int64_div (serializedSize * MaxFeeRate feeRate) 1000;
                       dynamicFee =
                         (if fless F (of_int64 F maxFee) dynamicFee \<and> 0 <s maxFee
                          then of_int64 F maxFee else dynamicFee);
                       finalFee = to_int64 F dynamicFee;
                       finalFee =
                         (if finalFee <s 0 \<or> MaxVARAmount <s finalFee then MaxVARAmount
                          else finalFee)
                   in Inr (sint finalFee))))"

definition calculateConfirmationMultiplier ::
    "'f float64_ops \<Rightarrow> int \<Rightarrow> 'f UtilizationStats \<Rightarrow> 'f" where
  "calculateConfirmationMultiplier F targetConfirmations stats =
     (let multiplier =
            (if targetConfirmations \<le> 1 then lit F 20 1
             else if targetConfirmations \<le> 3 then lit F 15 1
             else if targetConfirmations \<le> 6 then lit F 12 1
             else lit F 10 1)
      in if fless F (lit F 8 1) (BlockSpaceUsed stats) then fmul F multiplier (lit F 15 1)
         else if fless F (lit F 6 1) (BlockSpaceUsed stats) then fmul F multiplier (lit F 12 1)
         else multiplier)"

text \<open>The rates \<^verbatim>\<open>EstimateFeeRate\<close> takes as the bounds of a coin type.\<close>

definition min_relay :: "'f CoinTypeFeeRate \<Rightarrow> CoinType \<Rightarrow> int" where
  "min_relay feeRate coinType =
     (case (if IsSKA coinType then SKAMinRelayFee feeRate else None) of
        Some skaMin \<Rightarrow> skaMin
      | None \<Rightarrow> sint (MinRelayFee feeRate))"

definition max_rate :: "'f CoinTypeFeeRate \<Rightarrow> CoinType \<Rightarrow> int option" where
  "max_rate feeRate coinType =
     (case (if IsSKA coinType then SKAMinRelayFee feeRate else None) of
        Some skaMin \<Rightarrow> SKAMaxFeeRate feeRate
      | None \<Rightarrow> Some (sint (MaxFeeRate feeRate)))"

definition EstimateFeeRate ::
    "'f float64_ops \<Rightarrow> 'f CoinTypeFeeCalculator \<Rightarrow> CoinType \<Rightarrow> int \<Rightarrow> FeeError + int" where
  "EstimateFeeRate F calc coinType targetConfirmations =
     (case feeRates calc coinType of
        None \<Rightarrow> Inl (UnsupportedCoinType coinType)
      | Some feeRate \<Rightarrow>
          (let stats = utilizationStats calc coinType;
               minFeeRate = min_relay feeRate coinType;
               maxFeeRate = max_rate feeRate coinType;
               estimatedRate = minFeeRate;
               estimatedRate =
                 (if \<not> feq F (DynamicFeeMultiplier feeRate) (lit F 10 1) then
                    (let multiplierFixed =
                           to_int64 F (fmul F (DynamicFeeMultiplier feeRate) (lit F 1000 0))
                     in (estimatedRate * sint multiplierFixed) div 1000)
                  else estimatedRate);
               estimatedRate =
                 (case stats of
                    None \<Rightarrow> estimatedRate
                  | Some st \<Rightarrow>
                      (let confirmMultiplier =
                             calculateConfirmationMultiplier F targetConfirmations st
                       in if \<not> feq F confirmMultiplier (lit F 10 1) then
                            (let multiplierFixed =
                                   to_int64 F (fmul F confirmMultiplier (lit F 1000 0))
                             in (estimatedRate * sint multiplierFixed) div 1000)
                          else estimatedRate));
               estimatedRate =
                 (case maxFeeRate of
                    None \<Rightarrow> estimatedRate
                  | Some mx \<Rightarrow> if 0 < mx \<and> mx < estimatedRate then mx else estimatedRate);
               estimatedRate =
                 (if estimatedRate < minFeeRate then minFeeRate else estimatedRate)
           in Inr estimatedRate))"

section \<open>The UTXO codec: \<^verbatim>\<open>deserializeUtxoEntry\<close>\<close>

text \<open>
  The helpers of the codec (\<^verbatim>\<open>deserializeVLQ\<close>, \<^verbatim>\<open>decodeFlags\<close>, \<^verbatim>\<open>encodeUtxoFlags\<close>,
  \<^verbatim>\<open>decodeCompressedScriptSize\<close>, \<^verbatim>\<open>decompressScript\<close>, \<^verbatim>\<open>decodeCompressedTxOut\<close>,
  \<^verbatim>\<open>isTicketSubmissionOutput\<close>, \<^verbatim>\<open>readDeserializeSizeOfMinimalOutputs\<close>) are not part of
  the sources at hand. They are the fields of a record passed to the decoder; \<open>'tt\<close> is
  the type of transaction types and \<open>'pf\<close> the type of packed flags.
\<close>

record ('tt, 'pf) codec =
  deserializeVLQ :: "byte list \<Rightarrow> 64 word \<times> nat"
  decodeFlags :: "8 word \<Rightarrow> bool \<times> bool \<times> 'tt"
  encodeUtxoFlags :: "bool \<Rightarrow> bool \<Rightarrow> 'tt \<Rightarrow> 'pf"
  decodeCompressedScriptSize :: "byte list \<Rightarrow> int"
  decompressScript :: "byte list \<Rightarrow> byte list"
  decodeCompressedTxOut :: "byte list \<Rightarrow> bool \<Rightarrow> unit + (64 word \<times> 16 word \<times> byte list \<times> nat)"
  isTicketSubmissionOutput :: "'tt \<Rightarrow> 32 word \<Rightarrow> bool"
  readDeserializeSizeOfMinimalOutputs :: "byte list \<Rightarrow> unit + nat"

record 'pf UtxoEntry =
  amount :: "64 word"
  skaAmount :: "int option"
  pkScript :: "byte list"
  blockHeight :: "32 word"
  blockIndex :: "32 word"
  scriptVersion :: "16 word"
  coinType :: CoinType
  packedFlags :: 'pf
  ticketMinOuts :: "byte list option"

datatype DeserializeError =
  EndAfterHeight | EndAfterIndex | EndAfterFlags | EndBeforeSKAAmountLength
  | EndDuringSKAAmount | EndDuringScriptVersion | NegativeScriptSize | EndAfterScriptSize
  | UnableToDecodeUtxo | UnableToDecodeTicketOutputs | SliceOutOfRange

text \<open>Height, index and flags; the result carries the offset of the byte after the flags.\<close>

definition read_header ::
    "('tt, 'pf) codec \<Rightarrow> byte list \<Rightarrow> DeserializeError + (64 word \<times> 64 word \<times> 64 word \<times> nat)" where
  "read_header H serialized =
     (let (height, bytesRead) = deserializeVLQ H serialized;
          offset = bytesRead
      in if length serialized \<le> offset then Inl EndAfterHeight
         else
           (let (index, bytesRead) = deserializeVLQ H (drop offset serialized);
                offset = offset + bytesRead
            in if length serialized \<le> offset then Inl EndAfterIndex
               else
                 (let (flags, bytesRead) = deserializeVLQ H (drop offset serialized);
                      offset = offset + bytesRead
                  in if length serialized \<le> offset then Inl EndAfterFlags
                     else Inr (height, index, flags, offset))))"

text \<open>
  The validation of a candidate SKA layout at \<open>nextOffset\<close>: an amount length of at most
  32, then a script version and a compressed script that fit into the data.
\<close>

definition ska_layout_valid :: "('tt, 'pf) codec \<Rightarrow> byte list \<Rightarrow> nat \<Rightarrow> bool" where
  "ska_layout_valid H serialized nextOffset =
     (if nextOffset < length serialized then
        (let skaAmountLen = unat (serialized ! nextOffset)
         in if skaAmountLen \<le> 32 then
              (let skaOffset = nextOffset + 1 + skaAmountLen
               in if skaOffset < length serialized then
                    (let svBytesRead = snd (deserializeVLQ H (drop skaOffset serialized))
                     in if 0 < svBytesRead \<and> skaOffset + svBytesRead \<le> length serialized then
                          (let scriptOffset = skaOffset + svBytesRead;
                               scriptSize =
                                 decodeCompressedScriptSize H (drop scriptOffset serialized)
                           in 0 \<le> scriptSize \<and>
                              int scriptOffset + scriptSize \<le> int (length serialized))
                        else False)
                  else False)
            else False)
      else False)"

text \<open>
  The detection of the format from the offset after the flags: whether the entry is in
  the version-4 layout, its coin type, and the offset at which the output starts.
\<close>

definition detect_format ::
    "('tt, 'pf) codec \<Rightarrow> byte list \<Rightarrow> nat \<Rightarrow> bool \<times> CoinType \<times> nat" where
  "detect_format H serialized offset =
     (let (coinTypeVal, bytesRead) = deserializeVLQ H (drop offset serialized);
          nextOffset = offset + bytesRead
      in if nextOffset < length serialized then
           (let potentialCoinType = (ucast coinTypeVal :: CoinType)
            in if IsSKA potentialCoinType then
                 (if ska_layout_valid H serialized nextOffset
                  then (True, potentialCoinType, nextOffset)
                  else (False, CoinTypeVAR, offset))
               else if coinTypeVal = 0 then
                 (case decodeCompressedTxOut H (drop nextOffset serialized) True of
                    Inr decoded \<Rightarrow> (True, CoinTypeVAR, nextOffset)
                  | Inl err \<Rightarrow> (False, CoinTypeVAR, offset))
               else (False, CoinTypeVAR, offset))
         else (False, CoinTypeVAR, offset))"

text \<open>The SKA layout: amount, script version, script, and the offset after them.\<close>

definition decode_ska_output ::
    "('tt, 'pf) codec \<Rightarrow> byte list \<Rightarrow> nat \<Rightarrow>
     DeserializeError + (int \<times> 16 word \<times> byte list \<times> nat)" where
  "decode_ska_output H serialized offset =
     (if length serialized \<le> offset then Inl EndBeforeSKAAmountLength
      else
        (let amountLen = unat (serialized ! offset);
             offset = offset + 1
         in if length serialized < offset + amountLen then Inl EndDuringSKAAmount
            else
              (let skaValue =
                     (if 0 < amountLen then SetBytes (take amountLen (drop offset serialized))
                      else 0);
                   offset = offset + amountLen;
                   (scriptVersionVal, bytesRead) = deserializeVLQ H (drop offset serialized)
               in if bytesRead = 0 then Inl EndDuringScriptVersion
                  else
                    (let offset = offset + bytesRead;
                         scriptSize = decodeCompressedScriptSize H (drop offset serialized)
                     in if scriptSize < 0 then Inl NegativeScriptSize
                        else if int (length serialized) < int offset + scriptSize
                        then Inl EndAfterScriptSize
                        else
                          Inr (skaValue, ucast scriptVersionVal,
                               decompressScript H (take (nat scriptSize) (drop offset serialized)),
                               offset + nat scriptSize)))))"

definition deserializeUtxoEntry ::
    "('tt, 'pf) codec \<Rightarrow> byte list \<Rightarrow> 32 word \<Rightarrow> DeserializeError + 'pf UtxoEntry" where
  "deserializeUtxoEntry H serialized txOutIndex =
     (case read_header H serialized of
        Inl err \<Rightarrow> Inl err
      | Inr (height, index, flags, offset) \<Rightarrow>
          (let (isCoinBase, hasExpiry, txType) = decodeFlags H (ucast flags);
               (isV4Format, ct, offset) = detect_format H serialized offset
           in case
                (if isV4Format \<and> IsSKA ct then
                   (case decode_ska_output H serialized offset of
                      Inl err \<Rightarrow> Inl err
                    | Inr (skaValue, version, script, offset) \<Rightarrow>
                        Inr (0, Some skaValue, version, script, offset))
                 else
                   (case decodeCompressedTxOut H (drop offset serialized) True of
                      Inl err \<Rightarrow> Inl UnableToDecodeUtxo
                    | Inr (value, version, script, bytesRead) \<Rightarrow>
                        Inr (value, None, version, script, offset + bytesRead)))
              of
                Inl err \<Rightarrow> Inl err
              | Inr (value, skaValue, version, script, offset) \<Rightarrow>
                  (let entry =
                         \<lparr>amount = value, skaAmount = skaValue, pkScript = script,
                          blockHeight = ucast height, blockIndex = ucast index,
                          scriptVersion = version, coinType = ct,
                          packedFlags = encodeUtxoFlags H isCoinBase hasExpiry txType,
                          ticketMinOuts = None\<rparr>
                   in if isTicketSubmissionOutput H txType txOutIndex then
                        (if length serialized < offset then Inl SliceOutOfRange
                         else
                           (case readDeserializeSizeOfMinimalOutputs H (drop offset serialized) of
                              Inl err \<Rightarrow> Inl UnableToDecodeTicketOutputs
                            | Inr sz \<Rightarrow>
                                if length serialized < offset + sz then Inl SliceOutOfRange
                                else
                                  Inr (entry\<lparr>ticketMinOuts :=
                                         Some (take sz (drop offset serialized))\<rparr>)))
                      else Inr entry)))"

text \<open>
  A stand-in for the absent helpers, for running the decoder on the example below:
  every VLQ is one byte, the flags are laid out as the comment of the codec gives them,
  and a compressed output is an amount byte, a version byte and a script, whose first
  byte 0 announces twenty more bytes.
\<close>

definition plain_codec :: "(8 word, 8 word) codec" where
  "plain_codec =
     \<lparr>deserializeVLQ = (\<lambda>bs. case bs of [] \<Rightarrow> (0, 0) | b # rest \<Rightarrow> (ucast b, 1)),
      decodeFlags = (\<lambda>f. (f AND 1 \<noteq> 0, f AND 2 \<noteq> 0, drop_bit 2 f AND 15)),
      encodeUtxoFlags = (\<lambda>isCoinBase hasExpiry txType.
         (if isCoinBase then 1 else 0) OR (if hasExpiry then 2 else 0) OR push_bit 2 txType),
      decodeCompressedScriptSize = (\<lambda>bs. case bs of [] \<Rightarrow> - 1 | b # rest \<Rightarrow>
         if b = 0 then 21 else int (unat b)),
      decompressScript = (\<lambda>bs. bs),
      decodeCompressedTxOut = (\<lambda>bs hasAmount. case bs of
           a # v # t # rest \<Rightarrow>
             if t = 0 \<and> 20 \<le> length rest
             then Inr (ucast a, ucast v, t # take 20 rest, 23)
             else Inl ()
         | _ \<Rightarrow> Inl ()),
      isTicketSubmissionOutput = (\<lambda>txType txOutIndex. False),
      readDeserializeSizeOfMinimalOutputs = (\<lambda>bs. Inr 0)\<rparr>"

text \<open>
  A version-3 entry: height 1, index 0, flags 0, then the compressed output with amount
  5, script version 33 and a pay-to-pubkey-hash script.
\<close>

definition v3_entry_bytes :: "byte list" where
  "v3_entry_bytes = [1, 0, 0, 5, 33, 0] @ replicate 20 17"

section \<open>Round trip of the magnitude encoding\<close>

lemma foldl_magnitude_bytes:
  "foldl (\<lambda>acc b. acc * 256 + unat (b :: byte)) 0 (magnitude_bytes n) = n"
proof (induction n rule: magnitude_bytes.induct)
  case (1 n)
  show ?case
  proof (cases "n = 0")
    case True
    then show ?thesis by (simp add: magnitude_bytes.simps)
  next
    case False
    have low: "unat (of_nat (n mod 256) :: byte) = n mod 256"
      by (simp add: unat_of_nat)
    from False 1 have "foldl (\<lambda>acc b. acc * 256 + unat (b :: byte)) 0
        (magnitude_bytes (n div 256)) = n div 256"
      by simp
    with False low show ?thesis
      by (subst magnitude_bytes.simps) simp
  qed
qed

lemma SetBytes_big_Bytes: "SetBytes (big_Bytes x) = \<bar>x\<bar>"
  by (simp add: SetBytes_def big_Bytes_def foldl_magnitude_bytes)

lemma magnitude_bytes_Nil: "magnitude_bytes n = [] \<longleftrightarrow> n = 0"
  by (subst magnitude_bytes.simps) simp

lemma big_Bytes_Nil: "big_Bytes x = [] \<longleftrightarrow> x = 0"
  by (simp add: big_Bytes_def magnitude_bytes_Nil)

text \<open>
  C10. The signed encoding round-trips for every amount (the decoded amount compares
  equal to the original, and zero, and only zero, is the single byte 0); decoding the
  unsigned encoding gives the absolute value, so the unsigned round trip holds exactly
  for the amounts that are not negative.
\<close>

theorem ska_amount_bytes_roundtrip:
  "Cmp (SKAAmountFromSignedBytes (SignedBytes a)) a = 0 \<and>
   amount_value (SKAAmountFromSignedBytes (SignedBytes a)) = Some (operand a) \<and>
   (SignedBytes a = [0]) = (operand a = 0) \<and>
   Cmp (SKAAmountFromBytes (Bytes a)) (Abs a) = 0 \<and>
   amount_value (SKAAmountFromBytes (Bytes a)) = Some \<bar>operand a\<bar> \<and>
   (Cmp (SKAAmountFromBytes (Bytes a)) a = 0) = (\<not> IsNegative a)"
proof (cases "amount_value a")
  case None
  then show ?thesis
    by (simp add: Cmp_def operand_def SKAAmountFromSignedBytes_def SignedBytes_def
        SKAAmountFromBytes_def Bytes_def Abs_def IsNegative_def Zero_def)
next
  case (Some v)
  show ?thesis
  proof (cases "v = 0")
    case True
    with Some show ?thesis
      by (simp add: Cmp_def operand_def SKAAmountFromSignedBytes_def SignedBytes_def
          SKAAmountFromBytes_def Bytes_def Abs_def IsNegative_def Zero_def)
  next
    case False
    then have ne: "big_Bytes \<bar>v\<bar> \<noteq> []"
      by (simp add: big_Bytes_Nil)
    have rt: "SetBytes (big_Bytes \<bar>v\<bar>) = \<bar>v\<bar>"
      by (simp add: SetBytes_big_Bytes)
    from Some False ne rt show ?thesis
      by (auto simp: Cmp_def operand_def SKAAmountFromSignedBytes_def SignedBytes_def
          SKAAmountFromBytes_def Bytes_def Abs_def IsNegative_def Zero_def Let_def)
  qed
qed

theorem ska_amount_bytes_roundtrip_witness:
  "SignedBytes \<lparr>amount_value = Some (- 258)\<rparr> = [1, 1, 2] \<and>
   Cmp (SKAAmountFromSignedBytes [1, 1, 2]) \<lparr>amount_value = Some (- 258)\<rparr> = 0 \<and>
   Bytes \<lparr>amount_value = Some (- 258)\<rparr> = [1, 2] \<and>
   Cmp (SKAAmountFromBytes [1, 2]) \<lparr>amount_value = Some 258\<rparr> = 0"
proof -
  have b: "big_Bytes 258 = [1, 2]"
    by (simp add: big_Bytes_def magnitude_bytes.simps)
  with ska_amount_bytes_roundtrip [of "\<lparr>amount_value = Some (- 258)\<rparr>"] show ?thesis
    by (simp add: SignedBytes_def Bytes_def Abs_def)
qed

section \<open>The primary coin type\<close>

lemma IsSKA_iff_not_VAR: "IsSKA c \<longleftrightarrow> c \<noteq> CoinTypeVAR"
proof -
  have "c \<le> 255"
    using unsigned_less [of c, where ?'a = nat] by (simp add: word_le_nat_alt)
  moreover have "1 \<le> c \<longleftrightarrow> c \<noteq> 0"
    by (simp add: word_le_nat_alt unat_eq_0 Suc_le_eq unat_gt_0)
  ultimately show ?thesis
    by (simp add: IsSKA_def CoinTypeVAR_def)
qed

lemma first_output_with_value_find:
  "first_output_with_value outs = map_option CoinType (find has_positive_amount outs)"
  by (induction outs)
    (auto simp: has_positive_amount_def IsSKA_iff_not_VAR word_sless_alt)

text \<open>
  C9. \<^verbatim>\<open>GetTransactionCoinType\<close> returns the coin type of the first output with a positive
  amount; with no such output, the coin type of the first output; with no output, VAR.
\<close>

theorem GetTransactionCoinType_primary:
  "GetTransactionCoinType tx = primary_coin_type_spec tx"
  by (cases "TxOut tx")
    (auto simp: GetTransactionCoinType_def primary_coin_type_spec_def
      first_output_with_value_find split: option.splits)

theorem GetTransactionCoinType_primary_witness:
  "GetTransactionCoinType (emission_shaped_tx [] [ska_output 2 0, ska_output 3 7]) = 3 \<and>
   GetTransactionCoinType (emission_shaped_tx [] [ska_output 2 0, ska_output 3 0]) = 2 \<and>
   GetTransactionCoinType (emission_shaped_tx [] []) = CoinTypeVAR"
  using GetTransactionCoinType_primary
    [of "emission_shaped_tx [] [ska_output 2 0, ska_output 3 7]"]
    GetTransactionCoinType_primary
    [of "emission_shaped_tx [] [ska_output 2 0, ska_output 3 0]"]
    GetTransactionCoinType_primary [of "emission_shaped_tx [] []"]
  by (simp add: primary_coin_type_spec_def emission_shaped_tx_def ska_output_def
      has_positive_amount_def CoinTypeVAR_def)

section \<open>Emission detection: the two implementations disagree\<close>

lemma outputs_all_SKA_list_all:
  "outputs_all_SKA outs = list_all (\<lambda>out. IsSKA (CoinType out)) outs"
  by (induction outs) auto

lemma take4_eq:
  "4 \<le> length s \<Longrightarrow>
   (take 4 s = [a, b, c, d]) = (s ! 0 = a \<and> s ! 1 = b \<and> s ! 2 = c \<and> s ! 3 = d)"
  by (cases s; cases "tl s"; cases "tl (tl s)"; cases "tl (tl (tl s))") auto

lemma take4_short: "length s < 4 \<Longrightarrow> take 4 s \<noteq> [a, b, c, d]"
proof
  assume l: "length s < 4" and "take 4 s = [a, b, c, d]"
  then have "length (take 4 s) = 4" by simp
  with l show False by simp
qed

lemma wire_IsSKAEmissionTransaction_spec:
  "wire_IsSKAEmissionTransaction tx = emission_spec tx"
proof (cases "length (TxIn tx) = 1")
  case False
  then show ?thesis
    by (simp add: wire_IsSKAEmissionTransaction_def emission_spec_def)
next
  case True
  then have hd0: "TxIn tx ! 0 = hd (TxIn tx)"
    by (cases "TxIn tx") auto
  show ?thesis
  proof (cases "length (SignatureScript (hd (TxIn tx))) < 4")
    case True
    with \<open>length (TxIn tx) = 1\<close> hd0 take4_short [OF True] show ?thesis
      by (auto simp: wire_IsSKAEmissionTransaction_def emission_spec_def Let_def)
  next
    case False
    then have "4 \<le> length (SignatureScript (hd (TxIn tx)))" by simp
    from take4_eq [OF this] \<open>length (TxIn tx) = 1\<close> hd0 False show ?thesis
      by (auto simp: wire_IsSKAEmissionTransaction_def emission_spec_def Let_def
          outputs_all_SKA_list_all)
  qed
qed

text \<open>
  C6. \<^verbatim>\<open>IsSKAEmissionTransaction\<close> of the blockchain package does not decide the claim's
  shape. A null input whose script is the marker followed by one more byte, with one
  SKA output, has the shape (and the sibling in package wire accepts it), yet the
  function returns false whatever \<^verbatim>\<open>wire.CoinTypeSKA\<close> is; a script \<open>[0x02, S, K, A]\<close>
  does not begin with the marker, yet the function returns true.
\<close>

theorem IsSKAEmissionTransaction_marker_mismatch:
  "IsSKAEmissionTransaction CoinTypeSKA
     (emission_shaped_tx [0x01, 0x53, 0x4B, 0x41, 0x02] [ska_output 1 5]) = False \<and>
   emission_spec (emission_shaped_tx [0x01, 0x53, 0x4B, 0x41, 0x02] [ska_output 1 5]) \<and>
   wire_IsSKAEmissionTransaction
     (emission_shaped_tx [0x01, 0x53, 0x4B, 0x41, 0x02] [ska_output 1 5]) \<and>
   IsSKAEmissionTransaction CoinTypeSKA
     (emission_shaped_tx [0x02, 0x53, 0x4B, 0x41] [ska_output CoinTypeSKA 5]) = True \<and>
   \<not> emission_spec (emission_shaped_tx [0x02, 0x53, 0x4B, 0x41] [ska_output CoinTypeSKA 5])"
  by (simp add: IsSKAEmissionTransaction_def wire_IsSKAEmissionTransaction_def
      emission_spec_def emission_shaped_tx_def null_input_def ska_output_def IsSKA_def)

theorem IsSKAEmissionTransaction_marker_mismatch_witness:
  "\<not> IsSKAEmissionTransaction 1
     (emission_shaped_tx [0x01, 0x53, 0x4B, 0x41, 0x02] [ska_output 1 5]) \<and>
   wire_IsSKAEmissionTransaction
     (emission_shaped_tx [0x01, 0x53, 0x4B, 0x41, 0x02] [ska_output 1 5]) \<and>
   IsSKAEmissionTransaction 1 (emission_shaped_tx [0x02, 0x53, 0x4B, 0x41] [ska_output 1 5])"
  using IsSKAEmissionTransaction_marker_mismatch [of 1] by simp

section \<open>Transaction sanity\<close>

lemma sint_maxAtoms: "sint maxAtoms = 2100000000000000"
  by (simp add: maxAtoms_def)

lemma sint_add_small:
  fixes a b :: "64 word"
  assumes "0 \<le> sint a" "sint a \<le> 2100000000000000" "0 \<le> sint b" "sint b \<le> 2100000000000000"
  shows "sint (a + b) = sint a + sint b"
proof -
  have "sint (a + b) = signed_take_bit 63 (sint a + sint b)"
    by (simp add: sint_word_ariths)
  also have "\<dots> = sint a + sint b"
    using assms by (simp add: signed_take_bit_int_eq_self)
  finally show ?thesis .
qed

lemma var_sum_simps:
  "var_sum [] = 0"
  "var_sum (out # outs) =
     (if CoinType out = CoinTypeVAR then sint (Value out) + var_sum outs else var_sum outs)"
  by (simp_all add: var_sum_def)

lemma var_sum_nonneg: "list_all output_ok outs \<Longrightarrow> 0 \<le> var_sum outs"
  by (induction outs)
    (auto simp: var_sum_simps output_ok_def var_value_out_of_range_def)

lemma valid_ska_fields:
  assumes "ValidateCoinTypeFields out = None" "CoinType out \<noteq> CoinTypeVAR"
  shows "\<exists>v. SKAValue out = Some v \<and> 0 \<le> v"
  using assms
  by (auto simp: ValidateCoinTypeFields_def IsVAR_def CoinTypeVAR_def
      split: if_splits option.splits)

lemma check_outputs_Sane_iff:
  assumes "0 \<le> sint tv" "sint tv \<le> 2100000000000000" "0 \<le> ts"
  shows "check_outputs tv ts outs = Sane \<longleftrightarrow>
         list_all output_ok outs \<and> sint tv + var_sum outs \<le> 2100000000000000"
  using assms
proof (induction outs arbitrary: tv ts)
  case Nil
  then show ?case by (simp add: var_sum_simps)
next
  case (Cons out outs)
  show ?case
  proof (cases "ValidateCoinTypeFields out = None")
    case False
    then show ?thesis
      by (simp add: output_ok_def isValidCoinType_def)
  next
    case valid: True
    show ?thesis
    proof (cases "CoinType out = CoinTypeVAR")
      case var: True
      show ?thesis
      proof (cases "var_value_out_of_range out")
        case True
        with var valid show ?thesis
          by (auto simp: output_ok_def isValidCoinType_def var_value_out_of_range_def
              word_sless_alt Let_def)
      next
        case False
        with var have lo: "0 \<le> sint (Value out)" and hi: "sint (Value out) \<le> 2100000000000000"
          by (simp_all add: var_value_out_of_range_def sint_maxAtoms)
        have total: "sint (tv + Value out) = sint tv + sint (Value out)"
          using Cons.prems lo hi by (intro sint_add_small) simp_all
        show ?thesis
        proof (cases "2100000000000000 < sint tv + sint (Value out)")
          case True
          have "list_all output_ok outs \<Longrightarrow> 0 \<le> var_sum outs"
            by (rule var_sum_nonneg)
          with True var valid False lo hi total show ?thesis
            by (auto simp: isValidCoinType_def word_sless_alt Let_def sint_maxAtoms
                var_sum_simps var_value_out_of_range_def)
        next
          case small: False
          have "check_outputs (tv + Value out) ts outs = Sane \<longleftrightarrow>
                list_all output_ok outs \<and>
                sint (tv + Value out) + var_sum outs \<le> 2100000000000000"
            using Cons.prems lo small total by (intro Cons.IH) simp_all
          moreover have "output_ok out"
            using valid False by (simp add: output_ok_def)
          ultimately show ?thesis
            using small var valid lo hi total Cons.prems(1)
            by (simp add: isValidCoinType_def word_sless_alt Let_def sint_maxAtoms
                var_sum_simps add.assoc)
        qed
      qed
    next
      case ska: False
      from valid_ska_fields [OF valid ska] obtain v where v: "SKAValue out = Some v" "0 \<le> v"
        by blast
      have "check_outputs tv (ts + v) outs = Sane \<longleftrightarrow>
            list_all output_ok outs \<and> sint tv + var_sum outs \<le> 2100000000000000"
        using Cons.prems v by (intro Cons.IH) simp_all
      moreover have "output_ok out"
        using valid ska by (simp add: output_ok_def var_value_out_of_range_def)
      ultimately show ?thesis
        using ska valid v Cons.prems(3)
        by (simp add: isValidCoinType_def Let_def var_sum_simps)
    qed
  qed
qed

lemma check_outputs_no_panic: "check_outputs tv ts outs \<noteq> NilPointerPanic"
proof (induction outs arbitrary: tv ts)
  case Nil
  then show ?case by simp
next
  case (Cons out outs)
  show ?case
  proof (cases "ValidateCoinTypeFields out = None \<and> CoinType out \<noteq> CoinTypeVAR")
    case True
    then have "\<exists>v. SKAValue out = Some v \<and> 0 \<le> v"
      by (intro valid_ska_fields) simp_all
    then obtain v where "SKAValue out = Some v" by auto
    with Cons show ?thesis by (simp add: Let_def)
  next
    case False
    with Cons show ?thesis by (auto simp: Let_def)
  qed
qed

lemma check_duplicate_inputs_Sane_iff:
  "check_duplicate_inputs seen ins = Sane \<longleftrightarrow>
   distinct (map PreviousOutPoint ins) \<and> set (map PreviousOutPoint ins) \<inter> seen = {}"
  by (induction ins arbitrary: seen) auto

lemma check_duplicate_inputs_cases:
  "check_duplicate_inputs seen ins = Sane \<or>
   check_duplicate_inputs seen ins = RuleError ErrDuplicateTxInputs"
  by (induction ins arbitrary: seen) auto

text \<open>
  C3. \<^verbatim>\<open>CheckTransactionSanity\<close> returns an error exactly when the transaction has no
  input, no output, a serialized size above \<^verbatim>\<open>maxTxSize\<close>, an output that breaks the
  field discriminator, a VAR output whose value lies outside \<open>[0, MaxVARAtoms]\<close>, VAR
  outputs whose (mathematical) sum exceeds \<^verbatim>\<open>MaxVARAtoms\<close>, an SKA output with a negative
  value, or two inputs with the same previous outpoint; and it never dereferences a nil
  \<^verbatim>\<open>SKAValue\<close>.
\<close>

theorem CheckTransactionSanity_rejects_iff:
  "(CheckTransactionSanity V tx maxTxSize \<noteq> Sane) =
     (TxIn tx = [] \<or> TxOut tx = [] \<or>
      unat maxTxSize < MsgTx_SerializeSize V tx \<or>
      (\<exists>out \<in> set (TxOut tx). ValidateCoinTypeFields out \<noteq> None) \<or>
      (\<exists>out \<in> set (TxOut tx). var_value_out_of_range out) \<or>
      sint maxAtoms < var_total tx \<or>
      (\<exists>out \<in> set (TxOut tx). ska_value_negative out) \<or>
      \<not> distinct (map PreviousOutPoint (TxIn tx))) \<and>
   CheckTransactionSanity V tx maxTxSize \<noteq> NilPointerPanic"
proof -
  have outs: "check_outputs 0 0 (TxOut tx) = Sane \<longleftrightarrow>
      list_all output_ok (TxOut tx) \<and> var_sum (TxOut tx) \<le> 2100000000000000"
    using check_outputs_Sane_iff [of 0 0 "TxOut tx"] by simp
  have ok: "list_all output_ok (TxOut tx) \<longleftrightarrow>
      \<not> (\<exists>out \<in> set (TxOut tx). ValidateCoinTypeFields out \<noteq> None) \<and>
      \<not> (\<exists>out \<in> set (TxOut tx). var_value_out_of_range out)"
    by (auto simp: list_all_iff output_ok_def)
  have total: "var_total tx = var_sum (TxOut tx)"
    by (simp add: var_total_def var_sum_def var_outputs_def)
  have R: "check_outputs 0 0 (TxOut tx) = Sane \<longleftrightarrow>
      \<not> (\<exists>out \<in> set (TxOut tx). ValidateCoinTypeFields out \<noteq> None) \<and>
      \<not> (\<exists>out \<in> set (TxOut tx). var_value_out_of_range out) \<and>
      \<not> sint maxAtoms < var_total tx"
    unfolding outs ok total sint_maxAtoms by auto
  have neg: "ValidateCoinTypeFields out \<noteq> None" if "ska_value_negative out" for out
    using that
    by (auto simp: ska_value_negative_def ValidateCoinTypeFields_def IsVAR_def
        CoinTypeVAR_def split: option.splits)
  have absorbed: "(\<exists>out \<in> set (TxOut tx). ska_value_negative out) \<longrightarrow>
      (\<exists>out \<in> set (TxOut tx). ValidateCoinTypeFields out \<noteq> None)"
    using neg by blast
  have ins: "check_duplicate_inputs {} (TxIn tx) = Sane \<longleftrightarrow>
      distinct (map PreviousOutPoint (TxIn tx))"
    by (simp add: check_duplicate_inputs_Sane_iff)
  have L: "CheckTransactionSanity V tx maxTxSize = Sane \<longleftrightarrow>
      TxIn tx \<noteq> [] \<and> TxOut tx \<noteq> [] \<and> \<not> unat maxTxSize < MsgTx_SerializeSize V tx \<and>
      check_outputs 0 0 (TxOut tx) = Sane \<and> check_duplicate_inputs {} (TxIn tx) = Sane"
    by (auto simp: CheckTransactionSanity_def split: SanityResult.splits)
  have no_panic: "CheckTransactionSanity V tx maxTxSize \<noteq> NilPointerPanic"
    using check_outputs_no_panic [of 0 0 "TxOut tx"]
      check_duplicate_inputs_cases [of "{}" "TxIn tx"]
    by (auto simp: CheckTransactionSanity_def split: SanityResult.splits)
  show ?thesis
    unfolding L R ins using absorbed no_panic by blast
qed

theorem CheckTransactionSanity_rejects_iff_witness:
  "CheckTransactionSanity (\<lambda>n. if n < 253 then 1 else 3)
     (emission_shaped_tx [0x01, 0x53, 0x4B, 0x41] [ska_output 1 5]) 1000 = Sane \<and>
   CheckTransactionSanity (\<lambda>n. if n < 253 then 1 else 3)
     ((emission_shaped_tx [] [ska_output 1 5])\<lparr>TxIn := [null_input [], null_input []]\<rparr>)
     1000 \<noteq> Sane"
proof -
  have "magnitude_bytes 5 = [5]"
    by (simp add: magnitude_bytes.simps)
  then show ?thesis
    using CheckTransactionSanity_rejects_iff [of "\<lambda>n. if n < 253 then 1 else 3"
        "emission_shaped_tx [0x01, 0x53, 0x4B, 0x41] [ska_output 1 5]" 1000]
      CheckTransactionSanity_rejects_iff [of "\<lambda>n. if n < 253 then 1 else 3"
        "(emission_shaped_tx [] [ska_output 1 5])\<lparr>TxIn := [null_input [], null_input []]\<rparr>"
        1000]
    by (simp add: emission_shaped_tx_def ska_output_def null_input_def
        MsgTx_SerializeSize_def TxIn_SerializeSizePrefix_def TxIn_SerializeSizeWitness_def
        TxOut_SerializeSize_def TxSerializeFull_def TxSerializeNoWitness_def
        TxSerializeOnlyWitness_def ValidateCoinTypeFields_def IsVAR_def IsSKA_def
        var_value_out_of_range_def ska_value_negative_def var_total_def var_outputs_def
        CoinTypeVAR_def big_Bytes_def sint_maxAtoms)
qed

section \<open>Fee split\<close>

lemma adjustedTotal_no_wrap:
  "unat w + unat s < 65536 \<Longrightarrow> adjustedTotal w s = uint w + uint s"
  unfolding adjustedTotal_def
  by (simp add: uint_plus_simple_iff [THEN iffD1] no_olen_add_nat)

lemma split_fee_conserves:
  assumes "0 < t" "0 \<le> w" "0 \<le> s" "0 < w + s"
  shows "fst (split_fee t w s (w + s)) + snd (split_fee t w s (w + s)) = t"
    and "snd (split_fee t w s (w + s)) = (t * s) div (w + s)"
    and "0 \<le> snd (split_fee t w s (w + s))"
    and "0 \<le> fst (split_fee t w s (w + s))"
proof -
  show "fst (split_fee t w s (w + s)) + snd (split_fee t w s (w + s)) = t"
    by (simp add: split_fee_def Let_def)
  show st: "snd (split_fee t w s (w + s)) = (t * s) div (w + s)"
    by (simp add: split_fee_def Let_def)
  from assms have "0 \<le> t * s" by simp
  with assms show "0 \<le> snd (split_fee t w s (w + s))"
    unfolding st by (simp add: pos_imp_zdiv_nonneg_iff)
  have "t * s \<le> t * (w + s)"
    using assms by (simp add: mult_left_mono)
  then have "(t * s) div (w + s) \<le> t"
    using assms by (metis zdiv_mono1 nonzero_mult_div_cancel_right less_irrefl)
  then show "0 \<le> fst (split_fee t w s (w + s))"
    by (simp add: split_fee_def Let_def)
qed

lemma CalcFeeSplitByCoinType_conserves:
  assumes "unat work + unat stake < 65536" "0 < unat work + unat stake"
    and "fees c = Some t" "0 < t"
  shows "fee_of (fst (CalcFeeSplitByCoinType fees work stake)) c +
         fee_of (snd (CalcFeeSplitByCoinType fees work stake)) c = t \<and>
         fee_of (snd (CalcFeeSplitByCoinType fees work stake)) c =
           (t * uint stake) div (uint work + uint stake)"
proof -
  have adj: "adjustedTotal work stake = uint work + uint stake"
    using assms(1) by (rule adjustedTotal_no_wrap)
  have "int (unat work) = uint work" "int (unat stake) = uint stake"
    by simp_all
  with assms(2) have pos: "0 < uint work + uint stake"
    by linarith
  note sf = split_fee_conserves [OF assms(4) _ _ pos, of ]
  have a: "fst (split_fee t (uint work) (uint stake) (uint work + uint stake)) +
           snd (split_fee t (uint work) (uint stake) (uint work + uint stake)) = t"
    by (rule sf(1)) simp_all
  have b: "snd (split_fee t (uint work) (uint stake) (uint work + uint stake)) =
           (t * uint stake) div (uint work + uint stake)"
    by (rule sf(2)) simp_all
  have c: "0 \<le> snd (split_fee t (uint work) (uint stake) (uint work + uint stake))"
    by (rule sf(3)) simp_all
  have d: "0 \<le> fst (split_fee t (uint work) (uint stake) (uint work + uint stake))"
    by (rule sf(4)) simp_all
  from a b c d pos assms(3,4) show ?thesis
    by (auto simp: CalcFeeSplitByCoinType_def adj fee_of_def Let_def)
qed

text \<open>
  C2. The split conserves each fee and gives the staker the rounded-down share as long
  as the two proportions add up to less than \<open>2\<^sup>1\<^sup>6\<close> (the lemma above, and the
  remainder example with proportions 1 and 2 below). The sum is formed in \<^verbatim>\<open>uint16\<close>
  before it is widened, though: with proportions 65535 and 1 it wraps to zero and both
  results are empty, and with 40000 and 30000 the staker is paid 672 out of a fee of
  100 while the miner is paid nothing.
\<close>

theorem CalcFeeSplitByCoinType_uint16_wrap:
  "CalcFeeSplitByCoinType [CoinTypeVAR \<mapsto> 100] 65535 1 = (Map.empty, Map.empty) \<and>
   fst (CalcFeeSplitByCoinType [CoinTypeVAR \<mapsto> 100] 40000 30000) CoinTypeVAR = None \<and>
   snd (CalcFeeSplitByCoinType [CoinTypeVAR \<mapsto> 100] 40000 30000) CoinTypeVAR = Some 672 \<and>
   fst (CalcFeeSplitByCoinType [CoinTypeVAR \<mapsto> 100] 1 2) CoinTypeVAR = Some 34 \<and>
   snd (CalcFeeSplitByCoinType [CoinTypeVAR \<mapsto> 100] 1 2) CoinTypeVAR = Some 66"
  by (simp add: CalcFeeSplitByCoinType_def adjustedTotal_def split_fee_def Let_def)

theorem CalcFeeSplitByCoinType_uint16_wrap_witness:
  "fee_of (fst (CalcFeeSplitByCoinType [CoinTypeVAR \<mapsto> 100] 65535 1)) CoinTypeVAR +
   fee_of (snd (CalcFeeSplitByCoinType [CoinTypeVAR \<mapsto> 100] 65535 1)) CoinTypeVAR = 0"
  using CalcFeeSplitByCoinType_uint16_wrap by (simp add: fee_of_def)

section \<open>Loading the burn ledger\<close>

lemma version_key_not_coin: "[c] \<noteq> skaBurnStateVersionKey"
  by (simp add: skaBurnStateVersionKey_def)

lemma singleton_key: "length k = 1 \<Longrightarrow> k = [k ! 0]"
  by (cases k) auto

lemma load_entries_frame:
  "load_entries version s entries = Inr s' \<Longrightarrow> [c] \<notin> fst ` set entries \<Longrightarrow> s' c = s c"
proof (induction entries arbitrary: s)
  case Nil
  then show ?case by simp
next
  case (Cons e entries)
  obtain k v where e: "e = (k, v)" by (cases e)
  from Cons.prems(2) e have kc: "k \<noteq> [c]" and rest: "[c] \<notin> fst ` set entries"
    by auto
  show ?case
  proof (cases "k = skaBurnStateVersionKey")
    case True
    with Cons.prems(1) e rest Cons.IH show ?thesis by simp
  next
    case False
    with Cons.prems(1) e have len: "length k = 1"
      by (auto split: if_splits)
    with kc singleton_key [OF len] have ne: "k ! 0 \<noteq> c" by auto
    show ?thesis
    proof (cases "version = 1")
      case True
      with Cons.prems(1) e False len have
        "load_entries version (s(k ! 0 \<mapsto> sint (word_of_nat (LittleEndian_Uint v) :: 64 word)))
           entries = Inr s'"
        by (auto simp: Let_def split: if_splits)
      from Cons.IH [OF this rest] ne show ?thesis by simp
    next
      case v2: False
      with Cons.prems(1) e False len have
        "load_entries version (s(k ! 0 \<mapsto> SetBytes v)) entries = Inr s'"
        by (auto simp: Let_def split: if_splits)
      from Cons.IH [OF this rest] ne show ?thesis by simp
    qed
  qed
qed

lemma load_entries_decodes:
  assumes "load_entries version s entries = Inr s'" "distinct (map fst entries)"
    "([c], v) \<in> set entries"
  shows "if version = 1
         then length v = 8 \<and> s' c = Some (sint (word_of_nat (LittleEndian_Uint v) :: 64 word))
         else v \<noteq> [] \<and> s' c = Some (SetBytes v)"
  using assms
proof (induction entries arbitrary: s)
  case Nil
  then show ?case by simp
next
  case (Cons e entries)
  obtain k w where e: "e = (k, w)" by (cases e)
  show ?case
  proof (cases "e = ([c], v)")
    case True
    with Cons.prems(2) have rest: "[c] \<notin> fst ` set entries" by auto
    show ?thesis
    proof (cases "version = 1")
      case True
      with \<open>e = ([c], v)\<close> Cons.prems(1) have len: "length v = 8"
        and run: "load_entries version
           (s(c \<mapsto> sint (word_of_nat (LittleEndian_Uint v) :: 64 word))) entries = Inr s'"
        by (auto simp: Let_def version_key_not_coin split: if_splits)
      from load_entries_frame [OF run rest] len True show ?thesis by simp
    next
      case False
      with \<open>e = ([c], v)\<close> Cons.prems(1) have len: "v \<noteq> []"
        and run: "load_entries version (s(c \<mapsto> SetBytes v)) entries = Inr s'"
        by (auto simp: Let_def version_key_not_coin split: if_splits)
      from load_entries_frame [OF run rest] len False show ?thesis by simp
    qed
  next
    case False
    with Cons.prems(3) have mem: "([c], v) \<in> set entries" by auto
    from Cons.prems(2) have dist: "distinct (map fst entries)" by simp
    from Cons.prems(1) e obtain s1 where "load_entries version s1 entries = Inr s'"
      by (auto simp: Let_def split: if_splits)
    from Cons.IH [OF this dist mem] show ?thesis .
  qed
qed

lemma load_entries_rejects_zero:
  "([0], v) \<in> set entries \<Longrightarrow> isl (load_entries version s entries)"
proof (induction entries arbitrary: s)
  case Nil
  then show ?case by simp
next
  case (Cons e entries)
  obtain k w where e: "e = (k, w)" by (cases e)
  show ?case
  proof (cases "e = ([0], v)")
    case True
    then show ?thesis by (simp add: version_key_not_coin)
  next
    case False
    with Cons.prems have "([0], v) \<in> set entries" by auto
    from Cons.IH [OF this] e show ?thesis by (auto simp: Let_def)
  qed
qed

lemma LittleEndian_Uint_bound: "LittleEndian_Uint bs < 256 ^ length bs"
proof (induction bs)
  case Nil
  then show ?case by (simp add: LittleEndian_Uint_def)
next
  case (Cons b bs)
  have "unat b < 256" using unsigned_less [of b, where ?'a = nat] by simp
  moreover from Cons have "LittleEndian_Uint bs + 1 \<le> 256 ^ length bs"
    by simp
  then have "256 * (LittleEndian_Uint bs + 1) \<le> 256 * 256 ^ length bs"
    by (rule mult_le_mono2)
  ultimately show ?case
    using Cons by (simp add: LittleEndian_Uint_def)
qed

lemma version_word_gt:
  assumes "length vb = 4" "2 < LittleEndian_Uint vb"
  shows "skaBurnStateFormatVersion < (word_of_nat (LittleEndian_Uint vb) :: 32 word)"
proof -
  have "LittleEndian_Uint vb < 2 ^ 32"
    using LittleEndian_Uint_bound [of vb] assms(1) by simp
  then have "unat (word_of_nat (LittleEndian_Uint vb) :: 32 word) = LittleEndian_Uint vb"
    by (simp add: unat_of_nat)
  with assms(2) show ?thesis
    by (simp add: skaBurnStateFormatVersion_def word_less_nat_alt)
qed

text \<open>
  C5 (as amended). For a bucket with one value per key: when the version key is absent,
  a successful \<^verbatim>\<open>load\<close> has read each per-coin value as exactly eight bytes of
  little-endian \<^verbatim>\<open>int64\<close>; when the version is 2 it has read each per-coin value, whole
  and non-empty, as a big-endian magnitude (there is no length byte); a version greater
  than 2 is rejected; and a key for coin type 0 makes \<^verbatim>\<open>load\<close> fail.
\<close>

theorem load_decoding:
  assumes "distinct (map fst entries)"
  shows
   "(map_of entries skaBurnStateVersionKey = None \<and> load (Some entries) s = Inr s' \<and>
       ([c], v) \<in> set entries \<longrightarrow>
       length v = 8 \<and> s' c = Some (sint (word_of_nat (LittleEndian_Uint v) :: 64 word))) \<and>
    (map_of entries skaBurnStateVersionKey = Some (LittleEndian_PutUint32 2) \<and>
       load (Some entries) s = Inr s' \<and> ([c], v) \<in> set entries \<longrightarrow>
       v \<noteq> [] \<and> s' c = Some (SetBytes v)) \<and>
    (map_of entries skaBurnStateVersionKey = Some vb \<and> length vb = 4 \<and>
       2 < LittleEndian_Uint vb \<longrightarrow>
       load (Some entries) s = Inl UnsupportedVersion) \<and>
    (([0], v) \<in> set entries \<longrightarrow> isl (load (Some entries) s))"
proof (intro conjI impI)
  assume a: "map_of entries skaBurnStateVersionKey = None \<and> load (Some entries) s = Inr s' \<and>
       ([c], v) \<in> set entries"
  then have "load_entries 1 s entries = Inr s'"
    by (auto simp: load_def Let_def skaBurnStateFormatVersion_def split: if_splits)
  from load_entries_decodes [OF this assms, of c v] a
  show "length v = 8" "s' c = Some (sint (word_of_nat (LittleEndian_Uint v) :: 64 word))"
    by simp_all
next
  assume a: "map_of entries skaBurnStateVersionKey = Some (LittleEndian_PutUint32 2) \<and>
       load (Some entries) s = Inr s' \<and> ([c], v) \<in> set entries"
  have two: "(word_of_nat (LittleEndian_Uint (LittleEndian_PutUint32 2)) :: 32 word) = 2"
    by (simp add: LittleEndian_PutUint32_def LittleEndian_Uint_def)
  from a have "load_entries 2 s entries = Inr s'"
    by (auto simp: load_def Let_def two skaBurnStateFormatVersion_def split: if_splits)
  from load_entries_decodes [OF this assms, of c v] a
  show "v \<noteq> []" "s' c = Some (SetBytes v)"
    by simp_all
next
  assume "map_of entries skaBurnStateVersionKey = Some vb \<and> length vb = 4 \<and>
       2 < LittleEndian_Uint vb"
  with version_word_gt [of vb] show "load (Some entries) s = Inl UnsupportedVersion"
    by (simp add: load_def Let_def)
next
  assume "([0], v) \<in> set entries"
  from load_entries_rejects_zero [OF this]
  show "isl (load (Some entries) s)"
    by (auto simp: load_def Let_def split: option.splits)
qed

theorem load_decoding_witness:
  "distinct (map fst [([3 :: byte], [0xfe, 0xff, 0xff, 0xff, 0xff, 0xff, 0xff, 0xff :: byte])]) \<and>
   load (Some [([3], [0xfe, 0xff, 0xff, 0xff, 0xff, 0xff, 0xff, 0xff])]) Map.empty =
     Inr [3 \<mapsto> - 2] \<and>
   load (Some [(skaBurnStateVersionKey, [2, 0, 0, 0]), ([1], [1, 5])]) Map.empty =
     Inr [1 \<mapsto> 261] \<and>
   load (Some [(skaBurnStateVersionKey, [3, 0, 0, 0]), ([1], [1, 5])]) Map.empty =
     Inl UnsupportedVersion \<and>
   isl (load (Some [([0], [5])]) Map.empty)"
  using load_decoding [of "[([3], [0xfe, 0xff, 0xff, 0xff, 0xff, 0xff, 0xff, 0xff])]"
      Map.empty "[3 \<mapsto> - 2]" 3 "[0xfe, 0xff, 0xff, 0xff, 0xff, 0xff, 0xff, 0xff]" "[]"]
    load_decoding [of "[(skaBurnStateVersionKey, [2, 0, 0, 0]), ([1], [1, 5])]"
      Map.empty "[1 \<mapsto> 261]" 1 "[1, 5]" "[]"]
    load_decoding [of "[(skaBurnStateVersionKey, [3, 0, 0, 0]), ([1], [1, 5])]"
      Map.empty "[1 \<mapsto> 261]" 1 "[1, 5]" "[3, 0, 0, 0]"]
    load_decoding [of "[([0], [5])]" Map.empty Map.empty 0 "[5]" "[]"]
  by (simp add: load_def skaBurnStateVersionKey_def skaBurnStateFormatVersion_def
      LittleEndian_Uint_def LittleEndian_PutUint32_def SetBytes_def Let_def)

text \<open>
  The claim as stated fails: under version 2 the value \<open>[1, 5]\<close> is read as 261, where
  a length-prefixed reading gives 5, and the value \<open>[5]\<close>, which is what \<^verbatim>\<open>saveWithTx\<close>
  writes for a total of 5, is read as 5, where a length-prefixed reading fails. The
  unknown version 0 is not rejected.
\<close>

theorem load_v2_not_length_prefixed:
  "load (Some [(skaBurnStateVersionKey, [2, 0, 0, 0]), ([1], [1, 5])]) Map.empty =
     Inr [1 \<mapsto> 261] \<and>
   decode_length_prefixed [1, 5] = Some 5 \<and>
   load (Some [(skaBurnStateVersionKey, [2, 0, 0, 0]), ([1], [5])]) Map.empty =
     Inr [1 \<mapsto> 5] \<and>
   decode_length_prefixed [5] = None \<and>
   load (Some [(skaBurnStateVersionKey, [0, 0, 0, 0]), ([1], [7])]) Map.empty =
     Inr [1 \<mapsto> 7]"
  by (simp add: load_def skaBurnStateVersionKey_def skaBurnStateFormatVersion_def
      LittleEndian_Uint_def SetBytes_def decode_length_prefixed_def Let_def)

section \<open>Reorganisation of the burn ledger\<close>

lemma burned_in_simps:
  "burned_in c [] = 0"
  "burned_in c (r # rs) = (if BurnCoinType r = c then Amount r + burned_in c rs else burned_in c rs)"
  "burned_in c (xs @ ys) = burned_in c xs + burned_in c ys"
  by (simp_all add: burned_in_def)

lemma burned_in_nonneg: "\<forall>r \<in> set burns. 0 \<le> Amount r \<Longrightarrow> 0 \<le> burned_in c burns"
  by (induction burns) (auto simp: burned_in_simps)

lemma connect_burns_total:
  "total_burned (connect_burns s burns) c = total_burned s c + burned_in c burns"
  by (induction burns arbitrary: s)
    (auto simp: burned_in_simps total_burned_def split: option.splits)

lemma connect_burns_untouched:
  "c \<notin> BurnCoinType ` set burns \<Longrightarrow> connect_burns s burns c = s c"
  by (induction burns arbitrary: s) (auto split: option.splits)

lemma nonneg_at_total: "nonneg_at s c = (0 \<le> total_burned s c)"
  by (simp add: nonneg_at_def total_burned_def split: option.splits)

lemma connect_burns_nonneg:
  "\<forall>r \<in> set burns. 0 \<le> Amount r \<Longrightarrow> nonneg_at s c \<Longrightarrow> nonneg_at (connect_burns s burns) c"
  using burned_in_nonneg [of burns c] by (simp add: nonneg_at_total connect_burns_total)

lemma connect_burns_append:
  "connect_burns s (xs @ ys) = connect_burns (connect_burns s xs) ys"
  by (induction xs arbitrary: s) auto

lemma disconnect_burns_append:
  "disconnect_burns s (xs @ ys) = disconnect_burns (disconnect_burns s xs) ys"
  by (induction xs arbitrary: s) auto

lemma disconnect_burns_untouched:
  "c \<notin> BurnCoinType ` set burns \<Longrightarrow> disconnect_burns s burns c = s c"
  by (induction burns arbitrary: s) (auto simp: Let_def split: option.splits)

lemma disconnect_burns_Cons:
  "disconnect_burns s (r # rs) = disconnect_burns (disconnect_step s r) rs"
  by (simp add: disconnect_step_def)

lemma disconnect_step_other:
  "BurnCoinType r \<noteq> c \<Longrightarrow> disconnect_step s r c = s c"
  by (simp add: disconnect_step_def Let_def split: option.splits)

lemma disconnect_step_same:
  assumes "nonneg_at s c" "0 \<le> Amount r" "Amount r \<le> total_burned s c" "BurnCoinType r = c"
  shows "total_burned (disconnect_step s r) c = total_burned s c - Amount r"
    and "positive_at (disconnect_step s r) c"
  using assms
  by (auto simp: disconnect_step_def nonneg_at_def positive_at_def total_burned_def Let_def
      split: option.splits)

lemma positive_nonneg: "positive_at s c \<Longrightarrow> nonneg_at s c"
  by (simp add: positive_at_def nonneg_at_def split: option.splits)

lemma disconnect_burns_at:
  assumes "\<forall>r \<in> set burns. 0 \<le> Amount r" "nonneg_at s c" "burned_in c burns \<le> total_burned s c"
  shows "total_burned (disconnect_burns s burns) c = total_burned s c - burned_in c burns \<and>
         (c \<in> BurnCoinType ` set burns \<longrightarrow> positive_at (disconnect_burns s burns) c)"
  using assms
proof (induction burns arbitrary: s)
  case Nil
  then show ?case by (simp add: burned_in_simps)
next
  case (Cons r rs)
  from Cons.prems(1) have amounts: "\<forall>r \<in> set rs. 0 \<le> Amount r" and a: "0 \<le> Amount r"
    by simp_all
  have rest: "0 \<le> burned_in c rs"
    using amounts by (rule burned_in_nonneg)
  show ?case
  proof (cases "BurnCoinType r = c")
    case True
    with Cons.prems(3) rest have le: "Amount r \<le> total_burned s c"
      by (simp add: burned_in_simps)
    note step = disconnect_step_same [OF Cons.prems(2) a le True]
    have nn: "nonneg_at (disconnect_step s r) c"
      using step(2) by (rule positive_nonneg)
    have bound: "burned_in c rs \<le> total_burned (disconnect_step s r) c"
      using Cons.prems(3) True step(1) by (simp add: burned_in_simps)
    from Cons.IH [OF amounts nn bound]
    have ih: "total_burned (disconnect_burns (disconnect_step s r) rs) c =
                total_burned (disconnect_step s r) c - burned_in c rs"
      and pos: "c \<in> BurnCoinType ` set rs \<longrightarrow>
                positive_at (disconnect_burns (disconnect_step s r) rs) c"
      by simp_all
    have "positive_at (disconnect_burns (disconnect_step s r) rs) c"
    proof (cases "c \<in> BurnCoinType ` set rs")
      case True
      with pos show ?thesis by simp
    next
      case False
      then have "disconnect_burns (disconnect_step s r) rs c = disconnect_step s r c"
        by (rule disconnect_burns_untouched)
      with step(2) show ?thesis by (simp add: positive_at_def)
    qed
    with ih step(1) True show ?thesis
      by (simp add: disconnect_burns_Cons burned_in_simps del: disconnect_burns.simps)
  next
    case False
    then have same: "disconnect_step s r c = s c"
      by (rule disconnect_step_other)
    then have nn: "nonneg_at (disconnect_step s r) c"
      and tot: "total_burned (disconnect_step s r) c = total_burned s c"
      using Cons.prems(2) by (simp_all add: nonneg_at_def total_burned_def)
    have bound: "burned_in c rs \<le> total_burned (disconnect_step s r) c"
      using Cons.prems(3) False tot by (simp add: burned_in_simps)
    from Cons.IH [OF amounts nn bound] False tot show ?thesis
      by (simp add: disconnect_burns_Cons burned_in_simps del: disconnect_burns.simps)
  qed
qed

lemma positive_at_eq:
  "positive_at s c \<Longrightarrow> positive_at s' c \<Longrightarrow> total_burned s c = total_burned s' c \<Longrightarrow> s c = s' c"
  by (auto simp: positive_at_def total_burned_def split: option.splits)

lemma roundtrip_memory:
  assumes pos: "\<forall>c. positive_at s c"
    and amounts: "\<forall>r \<in> set burns. 0 \<le> Amount r"
    and same_total: "\<forall>c. burned_in c back = burned_in c burns"
    and same_coins: "BurnCoinType ` set back = BurnCoinType ` set burns"
    and amounts': "\<forall>r \<in> set back. 0 \<le> Amount r"
  shows "disconnect_burns (connect_burns s burns) back = s"
proof
  fix c
  let ?s1 = "connect_burns s burns"
  have nn: "nonneg_at ?s1 c"
    using amounts pos by (intro connect_burns_nonneg positive_nonneg) simp_all
  have tot: "total_burned ?s1 c = total_burned s c + burned_in c burns"
    by (rule connect_burns_total)
  have "0 \<le> total_burned s c"
    using pos positive_nonneg [of s c] by (simp add: nonneg_at_total)
  with tot same_total have bound: "burned_in c back \<le> total_burned ?s1 c"
    by simp
  from disconnect_burns_at [OF amounts' nn bound] tot same_total
  have back_tot: "total_burned (disconnect_burns ?s1 back) c = total_burned s c"
    and back_pos: "c \<in> BurnCoinType ` set back \<longrightarrow> positive_at (disconnect_burns ?s1 back) c"
    by simp_all
  show "disconnect_burns ?s1 back c = s c"
  proof (cases "c \<in> BurnCoinType ` set back")
    case True
    with back_pos have "positive_at (disconnect_burns ?s1 back) c" by simp
    moreover from pos have "positive_at s c" by simp
    ultimately show ?thesis using back_tot by (intro positive_at_eq)
  next
    case False
    then have "disconnect_burns ?s1 back c = ?s1 c"
      by (rule disconnect_burns_untouched)
    also from False same_coins have "?s1 c = s c"
      by (intro connect_burns_untouched) simp
    finally show ?thesis .
  qed
qed

lemma saveWithTx_ignores_old: "saveWithTx s meta = saveWithTx s None"
  by (simp add: saveWithTx_def)

lemma burned_Connect: "burned (ConnectSKABurnsTx st burns) = connect_burns (burned st) burns"
  by (cases burns) (simp_all add: ConnectSKABurnsTx_def Let_def)

lemma burned_Disconnect:
  "burned (DisconnectSKABurnsTx st burns) = disconnect_burns (burned st) burns"
  by (cases burns) (simp_all add: DisconnectSKABurnsTx_def Let_def)

lemma stored_Connect:
  "stored (ConnectSKABurnsTx st burns) =
     (if burns = [] then stored st
      else saveWithTx (burned (ConnectSKABurnsTx st burns)) None)"
  by (simp add: ConnectSKABurnsTx_def Let_def saveWithTx_ignores_old [of _ "stored st"])

lemma stored_Disconnect:
  "stored (DisconnectSKABurnsTx st burns) =
     (if burns = [] then stored st
      else saveWithTx (burned (DisconnectSKABurnsTx st burns)) None)"
  by (simp add: DisconnectSKABurnsTx_def Let_def saveWithTx_ignores_old [of _ "stored st"])

lemma connect_blocks_Cons:
  "connect_blocks st (b # bs) = connect_blocks (ConnectSKABurnsTx st b) bs"
  by (simp add: connect_blocks_def)

lemma disconnect_blocks_Cons:
  "disconnect_blocks st (b # bs) = disconnect_blocks (DisconnectSKABurnsTx st b) bs"
  by (simp add: disconnect_blocks_def)

lemma connect_blocks_empty: "concat bs = [] \<Longrightarrow> connect_blocks st bs = st"
  by (induction bs arbitrary: st)
    (simp_all add: connect_blocks_def ConnectSKABurnsTx_def)

lemma disconnect_blocks_empty: "concat bs = [] \<Longrightarrow> disconnect_blocks st bs = st"
  by (induction bs arbitrary: st)
    (simp_all add: disconnect_blocks_def DisconnectSKABurnsTx_def)

lemma burned_connect_blocks:
  "burned (connect_blocks st bs) = connect_burns (burned st) (concat bs)"
  by (induction bs arbitrary: st)
    (simp_all add: connect_blocks_def burned_Connect connect_burns_append)

lemma burned_disconnect_blocks:
  "burned (disconnect_blocks st bs) = disconnect_burns (burned st) (concat bs)"
  by (induction bs arbitrary: st)
    (simp_all add: disconnect_blocks_def burned_Disconnect disconnect_burns_append)

lemma stored_connect_blocks:
  "stored (connect_blocks st bs) =
     (if concat bs = [] then stored st
      else saveWithTx (burned (connect_blocks st bs)) None)"
proof (induction bs arbitrary: st)
  case Nil
  then show ?case by (simp add: connect_blocks_def)
next
  case (Cons b bs)
  let ?st1 = "ConnectSKABurnsTx st b"
  show ?case
  proof (cases "concat bs = []")
    case True
    then have id: "connect_blocks ?st1 bs = ?st1"
      by (rule connect_blocks_empty)
    show ?thesis
    proof (cases "b = []")
      case True
      with \<open>concat bs = []\<close> have "concat (b # bs) = []" by simp
      moreover from True have "?st1 = st"
        by (simp add: ConnectSKABurnsTx_def)
      ultimately show ?thesis
        unfolding connect_blocks_Cons id by simp
    next
      case False
      then have "concat (b # bs) \<noteq> []" by simp
      moreover from False have "stored ?st1 = saveWithTx (burned ?st1) None"
        by (simp only: stored_Connect if_False)
      ultimately show ?thesis
        unfolding connect_blocks_Cons id by (simp only: if_False)
    qed
  next
    case False
    then have "concat (b # bs) \<noteq> []" by simp
    moreover from False Cons.IH [of ?st1]
    have "stored (connect_blocks ?st1 bs) = saveWithTx (burned (connect_blocks ?st1 bs)) None"
      by (simp only: if_False)
    ultimately show ?thesis
      unfolding connect_blocks_Cons by (simp only: if_False)
  qed
qed

lemma stored_disconnect_blocks:
  "stored (disconnect_blocks st bs) =
     (if concat bs = [] then stored st
      else saveWithTx (burned (disconnect_blocks st bs)) None)"
proof (induction bs arbitrary: st)
  case Nil
  then show ?case by (simp add: disconnect_blocks_def)
next
  case (Cons b bs)
  let ?st1 = "DisconnectSKABurnsTx st b"
  show ?case
  proof (cases "concat bs = []")
    case True
    then have id: "disconnect_blocks ?st1 bs = ?st1"
      by (rule disconnect_blocks_empty)
    show ?thesis
    proof (cases "b = []")
      case True
      with \<open>concat bs = []\<close> have "concat (b # bs) = []" by simp
      moreover from True have "?st1 = st"
        by (simp add: DisconnectSKABurnsTx_def)
      ultimately show ?thesis
        unfolding disconnect_blocks_Cons id by simp
    next
      case False
      then have "concat (b # bs) \<noteq> []" by simp
      moreover from False have "stored ?st1 = saveWithTx (burned ?st1) None"
        by (simp only: stored_Disconnect if_False)
      ultimately show ?thesis
        unfolding disconnect_blocks_Cons id by (simp only: if_False)
    qed
  next
    case False
    then have "concat (b # bs) \<noteq> []" by simp
    moreover from False Cons.IH [of ?st1]
    have "stored (disconnect_blocks ?st1 bs) = saveWithTx (burned (disconnect_blocks ?st1 bs)) None"
      by (simp only: if_False)
    ultimately show ?thesis
      unfolding disconnect_blocks_Cons by (simp only: if_False)
  qed
qed

lemma burned_in_concat_rev: "burned_in c (concat (rev bs)) = burned_in c (concat bs)"
  by (induction bs) (simp_all add: burned_in_simps)

text \<open>
  C1 (as amended). Start from a ledger whose stored totals are all positive and take any
  chain of blocks whose burn amounts are not negative. Connecting the blocks in order
  and then disconnecting them in reverse order restores the in-memory totals. The
  persisted bucket is then the one \<^verbatim>\<open>saveWithTx\<close> writes for the initial totals (version
  2 and one big-endian entry per total), or is left as it was when the blocks hold no
  record at all; so the whole ledger is restored exactly when the initial bucket was
  itself written by \<^verbatim>\<open>saveWithTx\<close>. Connecting never decreases a total.
\<close>

theorem burn_ledger_reorg:
  assumes pos: "\<forall>c. positive_at (burned st) c"
    and amounts: "\<forall>burns \<in> set blocks. \<forall>r \<in> set burns. 0 \<le> Amount r"
  shows "burned (disconnect_blocks (connect_blocks st blocks) (rev blocks)) = burned st \<and>
    stored (disconnect_blocks (connect_blocks st blocks) (rev blocks)) =
      (if concat blocks = [] then stored st else saveWithTx (burned st) None) \<and>
    (stored st = saveWithTx (burned st) None \<longrightarrow>
       disconnect_blocks (connect_blocks st blocks) (rev blocks) = st) \<and>
    (\<forall>c. total_burned (burned st) c \<le> total_burned (burned (connect_blocks st blocks)) c)"
proof -
  let ?mid = "connect_blocks st blocks"
  let ?fin = "disconnect_blocks ?mid (rev blocks)"
  have a: "\<forall>r \<in> set (concat blocks). 0 \<le> Amount r"
    using amounts by auto
  have a': "\<forall>r \<in> set (concat (rev blocks)). 0 \<le> Amount r"
    using amounts by auto
  have mem: "burned ?fin = burned st"
    unfolding burned_disconnect_blocks burned_connect_blocks
    using pos a _ _ a'
    by (rule roundtrip_memory) (simp_all add: burned_in_concat_rev)
  have empty_iff: "concat (rev blocks) = [] \<longleftrightarrow> concat blocks = []"
    by simp
  have disk: "stored ?fin = (if concat blocks = [] then stored st else saveWithTx (burned st) None)"
  proof (cases "concat blocks = []")
    case True
    with stored_disconnect_blocks [of ?mid "rev blocks"] stored_connect_blocks [of st blocks]
    show ?thesis by simp
  next
    case False
    with stored_disconnect_blocks [of ?mid "rev blocks"]
    show ?thesis by (simp only: empty_iff if_False mem)
  qed
  have whole: "?fin = st" if "stored st = saveWithTx (burned st) None"
    using mem disk that by (intro SKABurnState.equality) simp_all
  have mono: "total_burned (burned st) c \<le> total_burned (burned ?mid) c" for c
    using burned_in_nonneg [OF a, of c]
    by (simp add: burned_connect_blocks connect_burns_total)
  from mem disk whole mono show ?thesis by blast
qed

theorem burn_ledger_reorg_witness:
  "(\<forall>c. positive_at [1 \<mapsto> 5] c) \<and>
   disconnect_blocks
     (connect_blocks \<lparr>burned = [1 \<mapsto> 5], stored = saveWithTx [1 \<mapsto> 5] None\<rparr>
        [[burn_record 1 3, burn_record 2 0], [], [burn_record 2 7]])
     (rev [[burn_record 1 3, burn_record 2 0], [], [burn_record 2 7]]) =
   \<lparr>burned = [1 \<mapsto> 5], stored = saveWithTx [1 \<mapsto> 5] None\<rparr>"
proof -
  have p: "\<forall>c. positive_at
      (burned \<lparr>burned = [1 \<mapsto> 5], stored = saveWithTx [1 \<mapsto> 5] None\<rparr>) c"
    by (simp add: positive_at_def)
  have a: "\<forall>burns \<in> set [[burn_record 1 3, burn_record 2 0], [], [burn_record 2 7]].
      \<forall>r \<in> set burns. 0 \<le> Amount r"
    by (simp add: burn_record_def)
  from burn_ledger_reorg [OF p a] p show ?thesis
    by simp
qed

text \<open>
  The claim as stated fails. On a fresh database (no bucket) a connect and disconnect of
  one record leaves a bucket behind; a bucket in the version-1 layout comes back in the
  version-2 layout; a stored total of zero is dropped from the in-memory map; and with
  a negative amount among the records a total is lost on the way back, and connecting
  decreases a total.
\<close>

theorem burn_ledger_reorg_counterexample:
  "stored (DisconnectSKABurnsTx
     (ConnectSKABurnsTx \<lparr>burned = Map.empty, stored = None\<rparr> [burn_record 1 3])
     [burn_record 1 3]) \<noteq> stored \<lparr>burned = Map.empty, stored = None\<rparr> \<and>
   stored (DisconnectSKABurnsTx
     (ConnectSKABurnsTx
        \<lparr>burned = [1 \<mapsto> 5], stored = Some [[1] \<mapsto> [5, 0, 0, 0, 0, 0, 0, 0]]\<rparr>
        [burn_record 1 3])
     [burn_record 1 3]) \<noteq> Some [[1] \<mapsto> [5, 0, 0, 0, 0, 0, 0, 0]] \<and>
   burned (DisconnectSKABurnsTx
     (ConnectSKABurnsTx \<lparr>burned = [1 \<mapsto> 0], stored = saveWithTx [1 \<mapsto> 0] None\<rparr>
        [burn_record 1 3])
     [burn_record 1 3]) 1 = None \<and>
   burned (DisconnectSKABurnsTx
     (ConnectSKABurnsTx \<lparr>burned = [1 \<mapsto> 10], stored = saveWithTx [1 \<mapsto> 10] None\<rparr>
        [burn_record 1 20, burn_record 1 (- 15)])
     [burn_record 1 20, burn_record 1 (- 15)]) 1 = None \<and>
   total_burned (burned
     (ConnectSKABurnsTx \<lparr>burned = [1 \<mapsto> 10], stored = saveWithTx [1 \<mapsto> 10] None\<rparr>
        [burn_record 1 (- 4)])) 1 = 6"
proof -
  have v1: "f \<noteq> [[1] \<mapsto> [5, 0, 0, 0, 0, 0, 0, 0 :: byte]]"
    if "f skaBurnStateVersionKey \<noteq> None" for f :: bucket
  proof
    assume "f = [[1] \<mapsto> [5, 0, 0, 0, 0, 0, 0, 0]]"
    then have "f skaBurnStateVersionKey = [[1] \<mapsto> [5, 0, 0, 0, 0, 0, 0, 0]] skaBurnStateVersionKey"
      by simp
    with that show False
      by (simp add: skaBurnStateVersionKey_def)
  qed
  show ?thesis
    by (simp add: ConnectSKABurnsTx_def DisconnectSKABurnsTx_def burn_record_def Let_def
        total_burned_def saveWithTx_def v1)
qed

section \<open>Fee estimation\<close>

text \<open>
  C7 (as amended). For a coin type with a configured fee rate and any confirmation
  target, \<^verbatim>\<open>EstimateFeeRate\<close> returns a rate that is at least the minimum relay rate; it is
  at most the maximum rate whenever that maximum is positive and not below the minimum.
\<close>

theorem EstimateFeeRate_bounds:
  assumes "feeRates calc c = Some r"
  shows "\<exists>est. EstimateFeeRate F calc c k = Inr est \<and> min_relay r c \<le> est \<and>
           (\<forall>mx. max_rate r c = Some mx \<and> 0 < mx \<and> min_relay r c \<le> mx \<longrightarrow> est \<le> mx)"
  using assms
  by (auto simp: EstimateFeeRate_def Let_def split: option.splits)

theorem EstimateFeeRate_bounds_witness:
  "EstimateFeeRate thousandths
     (NewCoinTypeFeeCalculator thousandths
        [1 \<mapsto> \<lparr>Active = True, MinRelayTxFee = Some 4000000000000000000,
                MaxFeeMultiplier = 2500, MaxSupply = 900000000000000000000000000000000\<rparr>]
        10000) 1 3 = Inr 6000000000000000000 \<and>
   EstimateFeeRate thousandths
     (NewCoinTypeFeeCalculator thousandths Map.empty 10000) CoinTypeVAR 1 = Inr 20000"
  using EstimateFeeRate_bounds [of
      "NewCoinTypeFeeCalculator thousandths
        [1 \<mapsto> \<lparr>Active = True, MinRelayTxFee = Some 4000000000000000000,
                MaxFeeMultiplier = 2500, MaxSupply = 900000000000000000000000000000000\<rparr>]
        10000" 1
      "getDefaultSKAFeeRate thousandths
         \<lparr>Active = True, MinRelayTxFee = Some 4000000000000000000,
          MaxFeeMultiplier = 2500, MaxSupply = 900000000000000000000000000000000\<rparr>"
      thousandths 3]
  by (simp add: EstimateFeeRate_def NewCoinTypeFeeCalculator_def getDefaultSKAFeeRate_def
      thousandths_def calculateConfirmationMultiplier_def min_relay_def max_rate_def
      IsSKA_def CoinTypeVAR_def Let_def word_sle_eq)

text \<open>
  The claim as stated fails where the configured maximum lies below the minimum: the
  constructor caps the maximum of an SKA coin at its \<^verbatim>\<open>MaxSupply\<close>, here 100, while the
  minimum relay rate is 5000, and the estimate is raised back to the minimum.
\<close>

theorem EstimateFeeRate_exceeds_max_rate:
  "EstimateFeeRate thousandths
     (NewCoinTypeFeeCalculator thousandths
        [1 \<mapsto> \<lparr>Active = True, MinRelayTxFee = Some 5000, MaxFeeMultiplier = 2,
                MaxSupply = 100\<rparr>] 10000) 1 10 = Inr 5000 \<and>
   (case feeRates (NewCoinTypeFeeCalculator thousandths
        [1 \<mapsto> \<lparr>Active = True, MinRelayTxFee = Some 5000, MaxFeeMultiplier = 2,
                MaxSupply = 100\<rparr>] 10000) 1 of
      None \<Rightarrow> None
    | Some r \<Rightarrow> max_rate r 1) = Some 100"
  by (simp add: EstimateFeeRate_def NewCoinTypeFeeCalculator_def getDefaultSKAFeeRate_def
      thousandths_def calculateConfirmationMultiplier_def min_relay_def max_rate_def
      IsSKA_def CoinTypeVAR_def Let_def word_sle_eq)

text \<open>
  C8 (as amended). For a coin type without an entry in the fee-rate table,
  \<^verbatim>\<open>CalculateMinFee\<close> falls back to the parameters of VAR and returns what it returns for
  VAR (the entry of VAR carrying no SKA rate, as the constructor writes it), whereas
  \<^verbatim>\<open>EstimateFeeRate\<close> does not fall back: it returns the error "unsupported coin type".
\<close>

theorem unknown_coin_type_fallback:
  assumes "feeRates calc c = None"
    and "\<forall>r. feeRates calc CoinTypeVAR = Some r \<longrightarrow> SKAMinRelayFee r = None"
  shows "CalculateMinFee F calc serializedSize c =
           CalculateMinFee F calc serializedSize CoinTypeVAR \<and>
         EstimateFeeRate F calc c k = Inl (UnsupportedCoinType c)"
  using assms
  by (auto simp: CalculateMinFee_def EstimateFeeRate_def Let_def split: option.splits)

theorem unknown_coin_type_fallback_witness:
  "CalculateMinFee thousandths (NewCoinTypeFeeCalculator thousandths Map.empty 10000) 500 99 =
     Inr 5000 \<and>
   CalculateMinFee thousandths (NewCoinTypeFeeCalculator thousandths Map.empty 10000) 500
     CoinTypeVAR = Inr 5000"
proof -
  have v: "CalculateMinFee thousandths (NewCoinTypeFeeCalculator thousandths Map.empty 10000)
      500 CoinTypeVAR = Inr 5000"
    by (simp add: CalculateMinFee_def NewCoinTypeFeeCalculator_def thousandths_def
        IsSKA_def CoinTypeVAR_def Let_def int64_div_def MaxVARAmount_def maxAtoms_def
        word_sless_alt signed_divide_int_def)
  have a: "feeRates (NewCoinTypeFeeCalculator thousandths Map.empty 10000) 99 = None"
    by (simp add: NewCoinTypeFeeCalculator_def CoinTypeVAR_def Let_def)
  have b: "\<forall>r. feeRates (NewCoinTypeFeeCalculator thousandths Map.empty 10000) CoinTypeVAR =
      Some r \<longrightarrow> SKAMinRelayFee r = None"
    by (auto simp: NewCoinTypeFeeCalculator_def CoinTypeVAR_def Let_def)
  from unknown_coin_type_fallback [OF a b, of thousandths 500] v show ?thesis
    by simp
qed

text \<open>
  The claim as stated fails for \<^verbatim>\<open>EstimateFeeRate\<close>: on the calculator the tests build, the
  unknown coin type 99 gets an error where VAR gets the estimate 20000.
\<close>

theorem EstimateFeeRate_unknown_is_error:
  "EstimateFeeRate thousandths (NewCoinTypeFeeCalculator thousandths Map.empty 10000) 99 1 =
     Inl (UnsupportedCoinType 99) \<and>
   EstimateFeeRate thousandths (NewCoinTypeFeeCalculator thousandths Map.empty 10000)
     CoinTypeVAR 1 = Inr 20000"
  by (simp add: EstimateFeeRate_def NewCoinTypeFeeCalculator_def
      thousandths_def calculateConfirmationMultiplier_def min_relay_def max_rate_def
      IsSKA_def CoinTypeVAR_def Let_def)

section \<open>Format detection of the UTXO codec\<close>

lemma detect_format_cases:
  assumes "deserializeVLQ H (drop offset serialized) = (coinTypeVal, n)"
  shows "detect_format H serialized offset =
     (if IsSKA (ucast coinTypeVal) \<and> ska_layout_valid H serialized (offset + n)
      then (True, ucast coinTypeVal, offset + n)
      else if coinTypeVal = 0 \<and> offset + n < length serialized \<and>
              \<not> isl (decodeCompressedTxOut H (drop (offset + n) serialized) True)
      then (True, CoinTypeVAR, offset + n)
      else (False, CoinTypeVAR, offset))"
proof -
  have short: "\<not> ska_layout_valid H serialized (offset + n)" if "\<not> offset + n < length serialized"
    using that by (simp add: ska_layout_valid_def)
  have zero: "\<not> IsSKA (ucast coinTypeVal)" if "coinTypeVal = 0"
    using that by (simp add: IsSKA_def)
  show ?thesis
    using assms short zero
    by (auto simp: detect_format_def Let_def split: sum.splits)
qed

text \<open>
  C4 (as amended). Let the header be read and let the VLQ after the flags be the
  candidate. An entry that decodes is a version-4 SKA entry of the candidate's coin
  type exactly when the candidate (its low byte) is in 1..255 and the bytes after it
  validate as the SKA layout; otherwise it has coin type VAR and no SKA amount. When
  the candidate is 0 and the probe of a compressed output after it fails, the entry is
  the version-3 one: its amount, script version and script are those of the compressed
  output that starts at the candidate itself.
\<close>

theorem deserializeUtxoEntry_format:
  assumes "read_header H serialized = Inr (height, index, flags, offset)"
    and "deserializeVLQ H (drop offset serialized) = (coinTypeVal, n)"
    and "deserializeUtxoEntry H serialized txOutIndex = Inr entry"
  shows "(IsSKA (ucast coinTypeVal) \<and> ska_layout_valid H serialized (offset + n) \<longrightarrow>
            coinType entry = ucast coinTypeVal \<and> skaAmount entry \<noteq> None \<and> amount entry = 0) \<and>
         (\<not> (IsSKA (ucast coinTypeVal) \<and> ska_layout_valid H serialized (offset + n)) \<longrightarrow>
            coinType entry = CoinTypeVAR \<and> skaAmount entry = None) \<and>
         (coinTypeVal = 0 \<and> isl (decodeCompressedTxOut H (drop (offset + n) serialized) True) \<longrightarrow>
            (\<exists>bytesRead. decodeCompressedTxOut H (drop offset serialized) True =
               Inr (amount entry, scriptVersion entry, pkScript entry, bytesRead)))"
proof -
  note fmt = detect_format_cases [OF assms(2)]
  have var: "\<not> IsSKA CoinTypeVAR"
    by (simp add: IsSKA_def CoinTypeVAR_def)
  have zero: "\<not> IsSKA (ucast coinTypeVal)" if "coinTypeVal = 0"
    using that by (simp add: IsSKA_def)
  show ?thesis
  proof (cases "IsSKA (ucast coinTypeVal) \<and> ska_layout_valid H serialized (offset + n)")
    case True
    with assms(1,3) fmt zero show ?thesis
      by (auto simp: deserializeUtxoEntry_def Let_def
          split: sum.splits prod.splits if_splits)
  next
    case False
    show ?thesis
    proof (cases "coinTypeVal = 0 \<and> offset + n < length serialized \<and>
              \<not> isl (decodeCompressedTxOut H (drop (offset + n) serialized) True)")
      case True
      with False assms(1,3) fmt var show ?thesis
        by (auto simp: deserializeUtxoEntry_def Let_def
            split: sum.splits prod.splits if_splits)
    next
      case v3: False
      with False assms(1,3) fmt var show ?thesis
        by (auto simp: deserializeUtxoEntry_def Let_def
            split: sum.splits prod.splits if_splits)
    qed
  qed
qed

theorem deserializeUtxoEntry_format_witness:
  "read_header plain_codec [1, 0, 0, 2, 1, 7, 0, 3, 9, 9] = Inr (1, 0, 0, 3) \<and>
   ska_layout_valid plain_codec [1, 0, 0, 2, 1, 7, 0, 3, 9, 9] 4 \<and>
   (case deserializeUtxoEntry plain_codec [1, 0, 0, 2, 1, 7, 0, 3, 9, 9] 0 of
      Inl err \<Rightarrow> None
    | Inr entry \<Rightarrow> Some (coinType entry, skaAmount entry, amount entry)) =
     Some (2, Some 7, 0)"
proof -
  have h: "read_header plain_codec [1, 0, 0, 2, 1, 7, 0, 3, 9, 9] = Inr (1, 0, 0, 3)"
    by (simp add: read_header_def plain_codec_def Let_def)
  have c: "deserializeVLQ plain_codec (drop 3 [1, 0, 0, 2, 1, 7, 0, 3, 9, 9]) = (2, 1)"
    by (simp add: plain_codec_def)
  have v: "ska_layout_valid plain_codec [1, 0, 0, 2, 1, 7, 0, 3, 9, 9] 4"
    by (simp add: ska_layout_valid_def plain_codec_def Let_def)
  have "\<exists>entry. deserializeUtxoEntry plain_codec [1, 0, 0, 2, 1, 7, 0, 3, 9, 9] 0 = Inr entry"
    by (simp add: deserializeUtxoEntry_def read_header_def detect_format_def
        ska_layout_valid_def decode_ska_output_def plain_codec_def IsSKA_def Let_def)
  then obtain entry where
    r: "deserializeUtxoEntry plain_codec [1, 0, 0, 2, 1, 7, 0, 3, 9, 9] 0 = Inr entry" ..
  have s: "skaAmount entry = Some 7"
    using r
    by (auto simp: deserializeUtxoEntry_def read_header_def detect_format_def
        ska_layout_valid_def decode_ska_output_def plain_codec_def IsSKA_def Let_def
        SetBytes_def)
  from deserializeUtxoEntry_format [OF h c r] v s h show ?thesis
    by (simp add: r IsSKA_def)
qed

text \<open>
  The claim as stated fails: a candidate in 1..255 is probed too and a failed probe
  falls back to version 3. In the version-3 entry below the candidate is the compressed
  amount 5; the byte after it, the script version 33, is no amount length (it exceeds
  32), and the entry is decoded with coin type VAR.
\<close>

theorem deserializeUtxoEntry_ska_candidate_as_v3:
  "read_header plain_codec v3_entry_bytes = Inr (1, 0, 0, 3) \<and>
   deserializeVLQ plain_codec (drop 3 v3_entry_bytes) = (5, 1) \<and>
   (case deserializeUtxoEntry plain_codec v3_entry_bytes 0 of
      Inl err \<Rightarrow> None
    | Inr entry \<Rightarrow> Some (coinType entry, skaAmount entry, amount entry, scriptVersion entry)) =
     Some (CoinTypeVAR, None, 5, 33)"
  by (simp add: deserializeUtxoEntry_def read_header_def detect_format_def
      ska_layout_valid_def plain_codec_def v3_entry_bytes_def IsSKA_def Let_def
      CoinTypeVAR_def)

end
